theory Spec2Isabelle
  imports Main "HOL-Library.Word"
begin

section \<open>JavaScript values\<close>

text \<open>
  A JavaScript string is a sequence of UTF-16 code units: \<open>.length\<close> counts them and
  \<open>.slice\<close> cuts between them. \<open>ustr\<close> turns an ASCII literal into such a string.
\<close>

type_synonym jsstring = "16 word list"

definition ustr :: "string \<Rightarrow> jsstring" where
  "ustr s = map of_char s"

text \<open>
  The values the program handles are the ones \<open>JSON.parse\<close> produces, plus
  \<open>undefined\<close> (a missing property, a missing argument). An object is the list of its
  own properties in insertion order. Numbers are the integers; fractions, \<open>NaN\<close> and
  the infinities do not occur in the values the claims are about.
\<close>

datatype jsval =
    JUndefined
  | JNull
  | JBool bool
  | JNum int
  | JStr jsstring
  | JArr "jsval list"
  | JObj "(jsstring \<times> jsval) list"

type_synonym props = "(jsstring \<times> jsval) list"

datatype http_method = GET | POST | PUT

datatype error =
    ConfigError jsstring
  | TypeError
  | NetworkError
  | ApiError http_method jsstring nat jsstring
  | SyntaxError

subsection \<open>Conversions and operators\<close>

text \<open>Decimal digits of a natural number, for array indices and numbers in templates.\<close>

fun decimal :: "nat \<Rightarrow> jsstring" where
  "decimal n = (if n < 10 then [48 + of_nat n] else decimal (n div 10) @ [48 + of_nat (n mod 10)])"

declare decimal.simps [simp del]

fun join_comma :: "jsstring list \<Rightarrow> jsstring" where
  "join_comma [] = []"
| "join_comma [s] = s"
| "join_comma (s # t # ss) = s @ ustr '','' @ join_comma (t # ss)"

text \<open>
  \<open>`${v}`\<close> in a template literal: the string conversion of \<open>v\<close>. An array joins its
  elements with commas, \<open>null\<close> and \<open>undefined\<close> elements giving the empty string.
\<close>

fun js_to_string :: "jsval \<Rightarrow> jsstring" where
  "js_to_string JUndefined = ustr ''undefined''"
| "js_to_string JNull = ustr ''null''"
| "js_to_string (JBool b) = (if b then ustr ''true'' else ustr ''false'')"
| "js_to_string (JNum n) = (if n < 0 then ustr ''-'' @ decimal (nat (- n)) else decimal (nat n))"
| "js_to_string (JStr s) = s"
| "js_to_string (JArr xs) =
     join_comma (map (\<lambda>v. if v = JUndefined \<or> v = JNull then [] else js_to_string v) xs)"
| "js_to_string (JObj ps) = ustr ''[object Object]''"

text \<open>
  \<open>a === b\<close>. Primitives are compared by value. Objects and arrays are compared by
  reference; wherever the program compares, the two operands were decoded from different
  documents (a response, the tool arguments) or one is a literal, so an object or array on
  the left is never the same reference as the right operand.
\<close>

fun strict_eq :: "jsval \<Rightarrow> jsval \<Rightarrow> bool" where
  "strict_eq (JArr xs) b = False"
| "strict_eq (JObj ps) b = False"
| "strict_eq a b = (a = b)"

text \<open>\<open>Boolean(v)\<close>.\<close>

fun truthy :: "jsval \<Rightarrow> bool" where
  "truthy JUndefined = False"
| "truthy JNull = False"
| "truthy (JBool b) = b"
| "truthy (JNum n) = (n \<noteq> 0)"
| "truthy (JStr s) = (s \<noteq> [])"
| "truthy (JArr xs) = True"
| "truthy (JObj ps) = True"

text \<open>\<open>a ?? b\<close>.\<close>

definition nullish_or :: "jsval \<Rightarrow> jsval \<Rightarrow> jsval" where
  "nullish_or a b = (if a = JUndefined \<or> a = JNull then b else a)"

subsection \<open>Properties\<close>

text \<open>
  \<open>v[k]\<close> and \<open>v.k\<close>. Reading a property of \<open>null\<close> or \<open>undefined\<close> throws a
  TypeError; a missing property reads as \<open>undefined\<close>. Strings and arrays have
  \<open>length\<close> and their indices. Inherited prototype members are not modelled: no
  property name the program reads is one.
\<close>

fun js_get :: "jsval \<Rightarrow> jsstring \<Rightarrow> error + jsval" where
  "js_get JUndefined k = Inl TypeError"
| "js_get JNull k = Inl TypeError"
| "js_get (JObj ps) k = Inr (case map_of ps k of None \<Rightarrow> JUndefined | Some v \<Rightarrow> v)"
| "js_get (JArr xs) k =
     Inr (if k = ustr ''length'' then JNum (int (length xs))
          else (case find (\<lambda>i. decimal i = k) [0..<length xs] of
                  None \<Rightarrow> JUndefined | Some i \<Rightarrow> xs ! i))"
| "js_get (JStr s) k =
     Inr (if k = ustr ''length'' then JNum (int (length s))
          else (case find (\<lambda>i. decimal i = k) [0..<length s] of
                  None \<Rightarrow> JUndefined | Some i \<Rightarrow> JStr [s ! i]))"
| "js_get v k = Inr JUndefined"

text \<open>
  A further read \<open>v.k\<close> on a value from which a property has already been read: it
  cannot throw any more.
\<close>

definition member :: "jsval \<Rightarrow> jsstring \<Rightarrow> jsval" where
  "member v k = (case js_get v k of Inl e \<Rightarrow> JUndefined | Inr x \<Rightarrow> x)"

text \<open>\<open>o[k] = v\<close> on the property list of an object.\<close>

fun set_prop :: "props \<Rightarrow> jsstring \<Rightarrow> jsval \<Rightarrow> props" where
  "set_prop [] k v = [(k, v)]"
| "set_prop ((k', v') # ps) k v =
     (if k' = k then (k, v) # ps else (k', v') # set_prop ps k v)"

text \<open>
  The own enumerable properties that \<open>{...v}\<close> copies: those of an object, the indexed
  elements of an array or a string, none of any other value.
\<close>

fun own_props :: "jsval \<Rightarrow> props" where
  "own_props (JObj ps) = ps"
| "own_props (JArr xs) = zip (map decimal [0..<length xs]) xs"
| "own_props (JStr s) = zip (map decimal [0..<length s]) (map (\<lambda>c. JStr [c]) s)"
| "own_props v = []"

text \<open>
  \<open>{ ...a, ...b }\<close>: every own property of \<open>b\<close> is assigned onto a copy of \<open>a\<close>, in
  order. A property of \<open>b\<close> whose value is \<open>undefined\<close> is assigned like any other.
  JavaScript enumerates integer-like keys before the others; the lists here keep insertion
  order, and no property below depends on the order.
\<close>

definition spread :: "props \<Rightarrow> props \<Rightarrow> props" where
  "spread a b = foldl (\<lambda>acc (k, v). set_prop acc k v) a b"

text \<open>
  \<open>JSON.stringify(v)\<close>, as the JSON document it writes (a value without \<open>undefined\<close>):
  a property whose value is \<open>undefined\<close> is left out, an \<open>undefined\<close> array element
  is written as \<open>null\<close>.
\<close>

fun JSON_stringify :: "jsval \<Rightarrow> jsval" where
  "JSON_stringify (JObj ps) =
     JObj (map (\<lambda>(k, v). (k, JSON_stringify v)) (filter (\<lambda>(k, v). v \<noteq> JUndefined) ps))"
| "JSON_stringify (JArr xs) =
     JArr (map (\<lambda>v. if v = JUndefined then JNull else JSON_stringify v) xs)"
| "JSON_stringify v = v"

section \<open>The remote service and the clock\<close>

text \<open>
  What \<open>fetch\<close> sends: the URL, the method, the three headers and the body.
\<close>

record http_request =
  req_url :: jsstring
  req_method :: http_method
  req_authorization :: jsstring
  req_account :: jsstring
  req_content_type :: jsstring
  req_body :: "jsval option"

text \<open>
  What \<open>fetch\<close> gives back: a rejection, or a response with its status, its body as text
  and that body decoded as JSON (\<open>None\<close> when it does not decode).
\<close>

datatype fetch_result = FetchFailed | Response nat jsstring "jsval option"

text \<open>
  The world outside the process: the wall clock in milliseconds (\<open>Date.now()\<close>), the
  calls issued so far with the time of each, the remote service (its answer to a call and
  the time the call takes may depend on every earlier call and on the time), and by how
  much a timer fires late. Every call is answered after a finite time.
\<close>

record world =
  clock :: int
  issued :: "(int \<times> http_request) list"
  net :: "(int \<times> http_request) list \<Rightarrow> int \<Rightarrow> http_request \<Rightarrow> fetch_result \<times> nat"
  timer_lag :: "int \<Rightarrow> nat"

text \<open>\<open>await new Promise((r) => setTimeout(r, ms))\<close>.\<close>

definition sleep :: "int \<Rightarrow> world \<Rightarrow> world" where
  "sleep ms w = w\<lparr>clock := clock w + ms + int (timer_lag w (clock w))\<rparr>"

section \<open>client.ts: configuration\<close>

record ChecklyConfig =
  apiKey :: jsstring
  accountId :: jsstring
  readOnly :: bool

text \<open>
  \<open>process.env\<close> maps a variable name to a string, or to nothing when the variable is
  unset. \<open>!apiKey\<close> holds for an unset and for an empty variable.
\<close>

definition getConfig :: "(jsstring \<Rightarrow> jsstring option) \<Rightarrow> error + ChecklyConfig" where
  "getConfig env =
     (case env (ustr ''CHECKLY_API_KEY'') of
        None \<Rightarrow> Inl (ConfigError (ustr ''CHECKLY_API_KEY env var required''))
      | Some k \<Rightarrow>
          if k = [] then Inl (ConfigError (ustr ''CHECKLY_API_KEY env var required''))
          else
            (case env (ustr ''CHECKLY_ACCOUNT_ID'') of
               None \<Rightarrow> Inl (ConfigError (ustr ''CHECKLY_ACCOUNT_ID env var required''))
             | Some a \<Rightarrow>
                 if a = [] then Inl (ConfigError (ustr ''CHECKLY_ACCOUNT_ID env var required''))
                 else Inr \<lparr>apiKey = k, accountId = a,
                            readOnly = (env (ustr ''CHECKLY_READ_ONLY'') \<noteq> Some (ustr ''false''))\<rparr>))"

section \<open>client.ts: requests\<close>

definition BASE_URL :: jsstring where
  "BASE_URL = ustr ''https://api.checklyhq.com''"

text \<open>\<open>body\<close> is \<open>undefined\<close> when the caller passes none.\<close>

definition request ::
  "ChecklyConfig \<Rightarrow> http_method \<Rightarrow> jsstring \<Rightarrow> jsval \<Rightarrow> world \<Rightarrow> (error + jsval) \<times> world" where
  "request config m path body w =
     (let req = \<lparr>req_url = BASE_URL @ path,
                 req_method = m,
                 req_authorization = ustr ''Bearer '' @ apiKey config,
                 req_account = accountId config,
                 req_content_type = ustr ''application/json'',
                 req_body = (if body \<noteq> JUndefined then Some (JSON_stringify body) else None)\<rparr>;
          res = net w (issued w) (clock w) req;
          w' = w\<lparr>clock := clock w + int (snd res), issued := issued w @ [(clock w, req)]\<rparr>
      in case fst res of
           FetchFailed \<Rightarrow> (Inl NetworkError, w')
         | Response status txt js \<Rightarrow>
             if \<not> (200 \<le> status \<and> status \<le> 299) then (Inl (ApiError m path status txt), w')
             else if status = 204 then (Inr (JObj []), w')
             else (case js of None \<Rightarrow> (Inl SyntaxError, w') | Some v \<Rightarrow> (Inr v, w')))"

definition api_get :: "ChecklyConfig \<Rightarrow> jsstring \<Rightarrow> world \<Rightarrow> (error + jsval) \<times> world" where
  "api_get config path w = request config GET path JUndefined w"

definition api_post ::
  "ChecklyConfig \<Rightarrow> jsstring \<Rightarrow> jsval \<Rightarrow> world \<Rightarrow> (error + jsval) \<times> world" where
  "api_post config path body w = request config POST path body w"

definition api_put ::
  "ChecklyConfig \<Rightarrow> jsstring \<Rightarrow> jsval \<Rightarrow> world \<Rightarrow> (error + jsval) \<times> world" where
  "api_put config path body w = request config PUT path body w"

section \<open>tools/checks.ts: updateCheck\<close>

definition read_only_error :: jsval where
  "read_only_error =
     JObj [(ustr ''error'',
            JStr (ustr ''Server is in read-only mode. Set CHECKLY_READ_ONLY=false to enable writes.''))]"

text \<open>
  The value a diff entry shows for \<open>x\<close>: a string of more than 120 code units is cut to
  its first 120 followed by the ellipsis U+2026; any other value is shown as it is.
\<close>

fun preview :: "jsval \<Rightarrow> jsval" where
  "preview (JStr s) = (if length s > 120 then JStr (take 120 s @ [0x2026]) else JStr s)"
| "preview v = v"

text \<open>
  The loop over \<open>Object.entries(updates)\<close> that fills \<open>diff\<close>. \<open>current[k]\<close> is read
  only when \<open>v\<close> is not \<open>undefined\<close>.
\<close>

fun build_diff :: "jsval \<Rightarrow> props \<Rightarrow> props \<Rightarrow> error + props" where
  "build_diff current [] diff = Inr diff"
| "build_diff current ((k, v) # rest) diff =
     (if v \<noteq> JUndefined then
        (case js_get current k of
           Inl e \<Rightarrow> Inl e
         | Inr cur \<Rightarrow>
             if \<not> strict_eq cur v then
               build_diff current rest
                 (set_prop diff k (JObj [(ustr ''from'', preview cur), (ustr ''to'', preview v)]))
             else build_diff current rest diff)
      else build_diff current rest diff)"

definition updateCheck ::
  "ChecklyConfig \<Rightarrow> jsval \<Rightarrow> props \<Rightarrow> bool \<Rightarrow> world \<Rightarrow> (error + jsval) \<times> world" where
  "updateCheck config check_id updates confirm w =
     (if readOnly config then (Inr read_only_error, w)
      else
        (case api_get config (ustr ''/v1/checks/'' @ js_to_string check_id) w of
           (Inl e, w1) \<Rightarrow> (Inl e, w1)
         | (Inr current, w1) \<Rightarrow>
             (case build_diff current updates [] of
                Inl e \<Rightarrow> (Inl e, w1)
              | Inr diff \<Rightarrow>
                  if length diff = 0 then
                    (Inr (JObj [(ustr ''message'', JStr (ustr ''No changes detected.'')),
                                (ustr ''diff'', JObj [])]), w1)
                  else if \<not> confirm then
                    (case js_get current (ustr ''name'') of
                       Inl e \<Rightarrow> (Inl e, w1)
                     | Inr checkName \<Rightarrow>
                         (Inr (JObj [(ustr ''message'',
                                      JStr (ustr ''Dry run '' @ [0x2014] @
                                            ustr '' pass confirm: true to apply.'')),
                                     (ustr ''checkId'', check_id),
                                     (ustr ''checkName'', checkName),
                                     (ustr ''diff'', JObj diff)]), w1))
                  else
                    (let payload = JObj (spread (own_props current) updates) in
                     case api_put config (ustr ''/v1/checks/'' @ js_to_string check_id) payload w1 of
                       (Inl e, w2) \<Rightarrow> (Inl e, w2)
                     | (Inr updated, w2) \<Rightarrow>
                         (case js_get updated (ustr ''id'') of
                            Inl e \<Rightarrow> (Inl e, w2)
                          | Inr updatedId \<Rightarrow>
                              (Inr (JObj [(ustr ''message'', JStr (ustr ''Check updated successfully.'')),
                                          (ustr ''checkId'', updatedId),
                                          (ustr ''checkName'', member updated (ustr ''name'')),
                                          (ustr ''diff'', JObj diff),
                                          (ustr ''updatedAt'', member updated (ustr ''updatedAt''))]),
                               w2))))))"

section \<open>tools/checks.ts: runCheck\<close>

definition PROGRESS :: jsval where
  "PROGRESS = JStr (ustr ''PROGRESS'')"

definition completed_result :: "jsval \<Rightarrow> jsval \<Rightarrow> jsval" where
  "completed_result polled status =
     JObj [(ustr ''message'', JStr (ustr ''Check completed: '' @ js_to_string status)),
           (ustr ''checkId'', member polled (ustr ''checkId'')),
           (ustr ''checkName'', member polled (ustr ''name'')),
           (ustr ''sessionId'', member polled (ustr ''checkSessionId'')),
           (ustr ''status'', member polled (ustr ''status'')),
           (ustr ''runLocations'', member polled (ustr ''runLocations'')),
           (ustr ''startedAt'', member polled (ustr ''startedAt'')),
           (ustr ''stoppedAt'', member polled (ustr ''stoppedAt'')),
           (ustr ''timeElapsedMs'', member polled (ustr ''timeElapsed'')),
           (ustr ''checkSessionLink'', member polled (ustr ''checkSessionLink'')),
           (ustr ''results'', nullish_or (member polled (ustr ''results'')) (JArr []))]"

definition timeout_result :: "jsval \<Rightarrow> jsval \<Rightarrow> jsval" where
  "timeout_result session sessionId =
     JObj [(ustr ''message'', JStr (ustr ''Timed out waiting for check to complete (120s).'')),
           (ustr ''sessionId'', sessionId),
           (ustr ''checkSessionLink'', member session (ustr ''checkSessionLink'')),
           (ustr ''hint'',
            JStr (ustr ''Check is still running. Use checkSessionLink to view in Checkly UI.''))]"

definition triggered_result :: "jsval \<Rightarrow> jsval \<Rightarrow> jsval" where
  "triggered_result session checkId =
     JObj [(ustr ''message'', JStr (ustr ''Check triggered.'')),
           (ustr ''checkId'', checkId),
           (ustr ''checkName'', member session (ustr ''name'')),
           (ustr ''sessionId'', member session (ustr ''checkSessionId'')),
           (ustr ''status'', member session (ustr ''status'')),
           (ustr ''runLocations'', member session (ustr ''runLocations'')),
           (ustr ''startedAt'', member session (ustr ''startedAt'')),
           (ustr ''checkSessionLink'', member session (ustr ''checkSessionLink'')),
           (ustr ''hint'',
            JStr (ustr ''Poll with get_session_status(sessionId) or wait and call get_check_results(checkId).''))]"

definition not_triggered_error :: "jsval \<Rightarrow> jsval" where
  "not_triggered_error check_id =
     JObj [(ustr ''error'',
            JStr (ustr ''Check was not triggered. It may be deactivated or belong to an inactive check group.'')),
           (ustr ''checkId'', check_id)]"

definition poll_path :: "jsval \<Rightarrow> jsstring" where
  "poll_path sessionId = ustr ''/v1/check-sessions/'' @ js_to_string sessionId"

text \<open>
  The loop \<open>while (Date.now() < deadline)\<close>: pause 3000 ms, poll the session, return
  when its status is not \<open>"PROGRESS"\<close>; after the loop, the timeout result.
\<close>

function poll_loop ::
  "ChecklyConfig \<Rightarrow> jsval \<Rightarrow> jsval \<Rightarrow> int \<Rightarrow> world \<Rightarrow> (error + jsval) \<times> world" where
  "poll_loop config session sessionId deadline w =
     (if clock w < deadline then
        (case api_get config (poll_path sessionId) (sleep 3000 w) of
           (Inl e, w') \<Rightarrow> (Inl e, w')
         | (Inr polled, w') \<Rightarrow>
             (case js_get polled (ustr ''status'') of
                Inl e \<Rightarrow> (Inl e, w')
              | Inr status \<Rightarrow>
                  if \<not> strict_eq status PROGRESS then (Inr (completed_result polled status), w')
                  else poll_loop config session sessionId deadline w'))
      else (Inr (timeout_result session sessionId), w))"
  by pat_completeness auto
termination
proof (relation "measure (\<lambda>(config, session, sessionId, deadline, w). nat (deadline - clock w))",
    goal_cases)
  case 1
  show ?case by simp
next
  case (2 config session sessionId deadline w r w' polled status)
  have "clock w < clock (sleep 3000 w)"
    by (simp add: sleep_def)
  also have "clock (sleep 3000 w) \<le> clock (snd (api_get config (poll_path sessionId) (sleep 3000 w)))"
    by (simp add: api_get_def request_def Let_def split: fetch_result.split option.split)
  also have "snd (api_get config (poll_path sessionId) (sleep 3000 w)) = w'"
    using 2(2) by (metis snd_conv)
  finally show ?case
    using 2(1) by simp
qed

declare poll_loop.simps [simp del]

definition runCheck ::
  "ChecklyConfig \<Rightarrow> jsval \<Rightarrow> bool \<Rightarrow> world \<Rightarrow> (error + jsval) \<times> world" where
  "runCheck config check_id awaitResult w =
     (if readOnly config then (Inr read_only_error, w)
      else
        (case api_post config (ustr ''/v1/check-sessions/trigger'')
                (JObj [(ustr ''target'', JObj [(ustr ''checkId'', JArr [check_id])])]) w of
           (Inl e, w1) \<Rightarrow> (Inl e, w1)
         | (Inr response, w1) \<Rightarrow>
             (case js_get response (ustr ''sessions'') of
                Inl e \<Rightarrow> (Inl e, w1)
              | Inr s \<Rightarrow>
                  (let sessions = nullish_or s (JArr []) in
                   if strict_eq (member sessions (ustr ''length'')) (JNum 0) then
                     (Inr (not_triggered_error check_id), w1)
                   else
                     (let session = member sessions (decimal 0) in
                      if \<not> awaitResult then
                        (case js_get session (ustr ''checkId'') of
                           Inl e \<Rightarrow> (Inl e, w1)
                         | Inr checkId \<Rightarrow> (Inr (triggered_result session checkId), w1))
                      else
                        (case js_get session (ustr ''checkSessionId'') of
                           Inl e \<Rightarrow> (Inl e, w1)
                         | Inr sessionId \<Rightarrow>
                             poll_loop config session sessionId (clock w1 + 120000) w1))))))"

section \<open>index.ts: the tool calls\<close>

text \<open>\<open>args?.k\<close>: \<open>undefined\<close> when \<open>args\<close> is \<open>null\<close> or \<open>undefined\<close>.\<close>

definition opt_get :: "jsval \<Rightarrow> jsstring \<Rightarrow> jsval" where
  "opt_get args k = (if args = JUndefined \<or> args = JNull then JUndefined else member args k)"

text \<open>
  The \<open>update_check\<close> and \<open>run_check\<close> cases of the tool handler. \<open>args!.id\<close> is
  evaluated first and throws when there are no arguments. The object literal passed as
  \<open>updates\<close> always has the four properties, each \<open>undefined\<close> when the call does not
  give it.
\<close>

definition update_check :: "ChecklyConfig \<Rightarrow> jsval \<Rightarrow> world \<Rightarrow> (error + jsval) \<times> world" where
  "update_check config args w =
     (case js_get args (ustr ''id'') of
        Inl e \<Rightarrow> (Inl e, w)
      | Inr check_id \<Rightarrow>
          updateCheck config check_id
            [(ustr ''script'', opt_get args (ustr ''script'')),
             (ustr ''name'', opt_get args (ustr ''name'')),
             (ustr ''activated'', opt_get args (ustr ''activated'')),
             (ustr ''frequency'', opt_get args (ustr ''frequency''))]
            (truthy (opt_get args (ustr ''confirm''))) w)"

definition run_check :: "ChecklyConfig \<Rightarrow> jsval \<Rightarrow> world \<Rightarrow> (error + jsval) \<times> world" where
  "run_check config args w =
     (case js_get args (ustr ''id'') of
        Inl e \<Rightarrow> (Inl e, w)
      | Inr check_id \<Rightarrow> runCheck config check_id (truthy (opt_get args (ustr ''await_result''))) w)"

section \<open>Notions used to state the properties\<close>

text \<open>The methods of the calls in a log, oldest first.\<close>

definition methods :: "(int \<times> http_request) list \<Rightarrow> http_method list" where
  "methods log = map (\<lambda>(t, r). req_method r) log"

text \<open>
  The request that one poll of session \<open>sessionId\<close> sends, written out: a GET of
  \<open>/v1/check-sessions/{sessionId}\<close> on the service's origin, with the three headers
  and no body.
\<close>

definition poll_request :: "ChecklyConfig \<Rightarrow> jsval \<Rightarrow> http_request" where
  "poll_request config sessionId =
     \<lparr>req_url = ustr ''https://api.checklyhq.com/v1/check-sessions/'' @ js_to_string sessionId,
      req_method = GET,
      req_authorization = ustr ''Bearer '' @ apiKey config,
      req_account = accountId config,
      req_content_type = ustr ''application/json'',
      req_body = None\<rparr>"

text \<open>
  The session never leaves the in-progress status: whenever it is polled, whatever
  happened before, the service answers with a session whose status is \<open>"PROGRESS"\<close>.
\<close>

definition in_progress_answer :: "fetch_result \<Rightarrow> bool" where
  "in_progress_answer res =
     (case res of
        FetchFailed \<Rightarrow> False
      | Response status txt js \<Rightarrow>
          200 \<le> status \<and> status \<le> 299 \<and> status \<noteq> 204 \<and>
          (case js of None \<Rightarrow> False | Some polled \<Rightarrow> js_get polled (ustr ''status'') = Inr PROGRESS))"

definition never_completes :: "world \<Rightarrow> ChecklyConfig \<Rightarrow> jsval \<Rightarrow> bool" where
  "never_completes w config sessionId =
     (\<forall>log t. in_progress_answer (fst (net w log t (poll_request config sessionId))))"

text \<open>
  A logged call is a poll of session \<open>sid\<close> sent at the end of a pause that began
  before the deadline, when timers fire \<open>lag t0\<close> late at time \<open>t0\<close>.
\<close>

definition poll_in_time :: "ChecklyConfig \<Rightarrow> jsval \<Rightarrow> int \<Rightarrow> (int \<Rightarrow> nat) \<Rightarrow> int \<times> http_request \<Rightarrow> bool" where
  "poll_in_time config sid deadline lag c =
     (snd c = poll_request config sid \<and>
      (\<exists>t0. t0 < deadline \<and> fst c = t0 + 3000 + int (lag t0)))"

text \<open>
  The world after \<open>n\<close> rounds of the poll loop, each entered before the deadline and
  each finding the session still in progress; \<open>None\<close> when the first \<open>n\<close> rounds are
  not all of that kind.
\<close>

fun after_polls :: "ChecklyConfig \<Rightarrow> jsval \<Rightarrow> int \<Rightarrow> nat \<Rightarrow> world \<Rightarrow> world option" where
  "after_polls config sessionId deadline 0 w = Some w"
| "after_polls config sessionId deadline (Suc n) w =
     (if clock w < deadline then
        (case api_get config (poll_path sessionId) (sleep 3000 w) of
           (Inl e, w') \<Rightarrow> None
         | (Inr polled, w') \<Rightarrow>
             (case js_get polled (ustr ''status'') of
                Inl e \<Rightarrow> None
              | Inr status \<Rightarrow>
                  if strict_eq status PROGRESS then after_polls config sessionId deadline n w'
                  else None))
      else None)"

section \<open>Example configurations and services\<close>

definition demo_env :: "jsstring \<Rightarrow> jsstring option" where
  "demo_env name =
     (if name = ustr ''CHECKLY_API_KEY'' then Some (ustr ''cu_key'')
      else if name = ustr ''CHECKLY_ACCOUNT_ID'' then Some (ustr ''acct'')
      else None)"

definition demo_config :: ChecklyConfig where
  "demo_config = \<lparr>apiKey = ustr ''cu_key'', accountId = ustr ''acct'', readOnly = False\<rparr>"

definition locked_config :: ChecklyConfig where
  "locked_config = \<lparr>apiKey = ustr ''cu_key'', accountId = ustr ''acct'', readOnly = True\<rparr>"

text \<open>
  A world starting at time 0 with an empty log and punctual timers, whose service
  answers every call with status 200 and the document \<open>answer req n\<close>, where \<open>n\<close> is the
  number of earlier calls, after \<open>latency\<close> milliseconds.
\<close>

definition stub_world :: "(http_request \<Rightarrow> nat \<Rightarrow> jsval) \<Rightarrow> nat \<Rightarrow> world" where
  "stub_world answer latency =
     \<lparr>clock = 0, issued = [],
      net = (\<lambda>log t req. (Response 200 [] (Some (answer req (length log))), latency)),
      timer_lag = (\<lambda>t. 0)\<rparr>"

definition demo_check :: jsval where
  "demo_check =
     JObj [(ustr ''id'', JStr (ustr ''X'')),
           (ustr ''name'', JStr (ustr ''old'')),
           (ustr ''script'', JStr (ustr ''s'')),
           (ustr ''activated'', JBool True),
           (ustr ''frequency'', JNum 5),
           (ustr ''tags'', JArr [JStr (ustr ''prod'')])]"

text \<open>A service that returns \<open>demo_check\<close> on a read and echoes the body of a write.\<close>

definition check_service :: "http_request \<Rightarrow> nat \<Rightarrow> jsval" where
  "check_service req n =
     (case req_method req of
        GET \<Rightarrow> demo_check
      | POST \<Rightarrow> JNull
      | PUT \<Rightarrow> (case req_body req of None \<Rightarrow> JNull | Some b \<Rightarrow> b))"

definition demo_session :: "jsstring \<Rightarrow> jsstring \<Rightarrow> jsval" where
  "demo_session sid status =
     JObj [(ustr ''checkSessionId'', JStr sid),
           (ustr ''checkSessionLink'', JStr (ustr ''https://chkly.link/'' @ sid)),
           (ustr ''checkId'', JStr (ustr ''X'')),
           (ustr ''name'', JStr (ustr ''old'')),
           (ustr ''status'', JStr status)]"

text \<open>
  A service whose trigger returns the sessions \<open>S1\<close> and \<open>S2\<close>, and whose polls find the
  session in progress until call number \<open>flip\<close>, and passed from then on.
\<close>

definition session_service :: "nat \<Rightarrow> http_request \<Rightarrow> nat \<Rightarrow> jsval" where
  "session_service flip req n =
     (case req_method req of
        POST \<Rightarrow> JObj [(ustr ''sessions'',
                       JArr [demo_session (ustr ''S1'') (ustr ''PROGRESS''),
                             demo_session (ustr ''S2'') (ustr ''PROGRESS'')])]
      | GET \<Rightarrow> demo_session (ustr ''S1'') (if n < flip then ustr ''PROGRESS'' else ustr ''PASSED'')
      | PUT \<Rightarrow> JNull)"

text \<open>A service whose trigger returns no session.\<close>

definition idle_service :: "http_request \<Rightarrow> nat \<Rightarrow> jsval" where
  "idle_service req n = JObj [(ustr ''sessions'', JArr [])]"

text \<open>A service whose trigger returns one session that stays in progress for ever.\<close>

definition stuck_service :: "http_request \<Rightarrow> nat \<Rightarrow> jsval" where
  "stuck_service req n =
     (case req_method req of
        POST \<Rightarrow> JObj [(ustr ''sessions'', JArr [demo_session (ustr ''S1'') (ustr ''PROGRESS'')])]
      | GET \<Rightarrow> demo_session (ustr ''S1'') (ustr ''PROGRESS'')
      | PUT \<Rightarrow> JNull)"

section \<open>Properties of the client\<close>

lemma clock_request: "clock w \<le> clock (snd (request config m path body w))"
  by (simp add: request_def Let_def split: fetch_result.split option.split)

lemma request_issued:
  "issued (snd (request config m path body w)) =
     issued w @ [(clock w,
       \<lparr>req_url = BASE_URL @ path, req_method = m,
        req_authorization = ustr ''Bearer '' @ apiKey config,
        req_account = accountId config,
        req_content_type = ustr ''application/json'',
        req_body = (if body \<noteq> JUndefined then Some (JSON_stringify body) else None)\<rparr>)]"
  by (simp add: request_def Let_def split: fetch_result.split option.split)

lemma request_net: "net (snd (request config m path body w)) = net w"
  by (simp add: request_def Let_def split: fetch_result.split option.split)

lemma request_timer_lag: "timer_lag (snd (request config m path body w)) = timer_lag w"
  by (simp add: request_def Let_def split: fetch_result.split option.split)

section \<open>The read-only gate\<close>

text \<open>
  C9. Once the two required variables are set, \<open>getConfig\<close> returns a configuration
  whose read-only flag is true for every value of \<open>CHECKLY_READ_ONLY\<close>, the unset case
  included, except the string \<open>false\<close>.
\<close>

theorem C9_read_only_unless_false:
  assumes "env (ustr ''CHECKLY_API_KEY'') = Some k" and "k \<noteq> []"
    and "env (ustr ''CHECKLY_ACCOUNT_ID'') = Some a" and "a \<noteq> []"
  shows "getConfig env =
           Inr \<lparr>apiKey = k, accountId = a,
                readOnly = (env (ustr ''CHECKLY_READ_ONLY'') \<noteq> Some (ustr ''false''))\<rparr>"
  using assms by (simp add: getConfig_def)

text \<open>Both variables set and \<open>CHECKLY_READ_ONLY\<close> unset: the gate is on.\<close>

theorem C9_witness:
  "demo_env (ustr ''CHECKLY_API_KEY'') = Some (ustr ''cu_key'') \<and> ustr ''cu_key'' \<noteq> [] \<and>
   demo_env (ustr ''CHECKLY_ACCOUNT_ID'') = Some (ustr ''acct'') \<and> ustr ''acct'' \<noteq> [] \<and>
   demo_env (ustr ''CHECKLY_READ_ONLY'') = None \<and>
   getConfig demo_env = Inr \<lparr>apiKey = ustr ''cu_key'', accountId = ustr ''acct'', readOnly = True\<rparr>"
proof -
  have h1: "demo_env (ustr ''CHECKLY_API_KEY'') = Some (ustr ''cu_key'')"
    by (simp add: demo_env_def)
  have h2: "ustr ''cu_key'' \<noteq> []"
    by (simp add: ustr_def)
  have h3: "demo_env (ustr ''CHECKLY_ACCOUNT_ID'') = Some (ustr ''acct'')"
    by (simp add: demo_env_def ustr_def)
  have h4: "ustr ''acct'' \<noteq> []"
    by (simp add: ustr_def)
  have h5: "demo_env (ustr ''CHECKLY_READ_ONLY'') = None"
    by (simp add: demo_env_def ustr_def)
  show ?thesis
    using C9_read_only_unless_false [OF h1 h2 h3 h4] h1 h2 h3 h4 h5 by simp
qed

text \<open>
  C3. While the read-only gate is set, \<open>updateCheck\<close> and \<open>runCheck\<close> return an object
  with an \<open>error\<close> property, not an exception, and leave the world as it was: no call is
  issued.
\<close>

theorem C3_read_only_denies_without_calls:
  assumes "readOnly config"
  shows "updateCheck config check_id updates confirm w = (Inr read_only_error, w) \<and>
         runCheck config check_id awaitResult w = (Inr read_only_error, w) \<and>
         read_only_error =
           JObj [(ustr ''error'',
                  JStr (ustr ''Server is in read-only mode. Set CHECKLY_READ_ONLY=false to enable writes.''))]"
  using assms by (simp add: updateCheck_def runCheck_def read_only_error_def)

text \<open>A locked configuration: both workflows deny, and the log stays empty.\<close>

theorem C3_witness:
  "readOnly locked_config \<and>
   updateCheck locked_config (JStr (ustr ''X'')) [(ustr ''name'', JStr (ustr ''new''))] True
       (stub_world check_service 20) = (Inr read_only_error, stub_world check_service 20) \<and>
   runCheck locked_config (JStr (ustr ''X'')) True (stub_world (session_service 2) 20) =
     (Inr read_only_error, stub_world (session_service 2) 20) \<and>
   issued (stub_world check_service 20) = []"
proof -
  have h: "readOnly locked_config"
    by (simp add: locked_config_def)
  show ?thesis
    using h C3_read_only_denies_without_calls [OF h] by (simp add: stub_world_def)
qed

section \<open>runCheck\<close>

lemma decimal_0: "decimal 0 = [48]"
  by (simp add: decimal.simps)

lemma ustr_length_ne_decimal_0: "decimal 0 \<noteq> ustr ''length''"
  by (simp add: decimal_0 ustr_def)

lemma member_first: "member (JArr (x # xs)) (decimal 0) = x"
  by (simp add: member_def ustr_length_ne_decimal_0 upt_conv_Cons del: upt_Suc)

lemma member_length: "member (JArr xs) (ustr ''length'') = JNum (int (length xs))"
  by (simp add: member_def)

lemma request_methods:
  assumes "request config m path body w = (r, w1)"
  shows "methods (issued w1) = methods (issued w) @ [m]"
proof -
  have "w1 = snd (request config m path body w)"
    using assms by simp
  then show ?thesis
    by (simp add: request_issued methods_def)
qed

text \<open>
  C8. When the trigger call returns an empty list of sessions, or a response without a
  \<open>sessions\<close> property, \<open>runCheck\<close> returns the not-triggered error object with the
  target id, whatever the await flag, and the trigger is the only call it issues: no poll.
\<close>

theorem C8_no_session_not_triggered:
  assumes "\<not> readOnly config"
    and "api_post config (ustr ''/v1/check-sessions/trigger'')
           (JObj [(ustr ''target'', JObj [(ustr ''checkId'', JArr [check_id])])]) w = (Inr response, w1)"
    and "js_get response (ustr ''sessions'') = Inr s"
    and "s = JArr [] \<or> s = JUndefined \<or> s = JNull"
  shows "runCheck config check_id awaitResult w =
           (Inr (JObj [(ustr ''error'',
                        JStr (ustr ''Check was not triggered. It may be deactivated or belong to an inactive check group.'')),
                       (ustr ''checkId'', check_id)]), w1) \<and>
         methods (issued w1) = methods (issued w) @ [POST]"
proof -
  have len: "strict_eq (member (nullish_or s (JArr [])) (ustr ''length'')) (JNum 0)"
    using assms(4) by (auto simp: nullish_or_def member_length)
  have log: "methods (issued w1) = methods (issued w) @ [POST]"
    using assms(2) by (simp add: api_post_def request_methods)
  show ?thesis
    using assms(1-3) len log by (simp add: runCheck_def Let_def not_triggered_error_def)
qed

text \<open>A trigger that returns no session, awaited: the error object, and one POST.\<close>

theorem C8_witness:
  "\<not> readOnly demo_config \<and>
   runCheck demo_config (JStr (ustr ''X'')) True (stub_world idle_service 20) =
     (Inr (JObj [(ustr ''error'',
                  JStr (ustr ''Check was not triggered. It may be deactivated or belong to an inactive check group.'')),
                 (ustr ''checkId'', JStr (ustr ''X''))]),
      snd (api_post demo_config (ustr ''/v1/check-sessions/trigger'')
           (JObj [(ustr ''target'', JObj [(ustr ''checkId'', JArr [JStr (ustr ''X'')])])])
           (stub_world idle_service 20))) \<and>
   methods (issued (snd (runCheck demo_config (JStr (ustr ''X'')) True (stub_world idle_service 20)))) = [POST]"
proof -
  let ?w = "stub_world idle_service 20"
  let ?body = "JObj [(ustr ''target'', JObj [(ustr ''checkId'', JArr [JStr (ustr ''X'')])])]"
  let ?response = "JObj [(ustr ''sessions'', JArr [])]"
  let ?w1 = "snd (api_post demo_config (ustr ''/v1/check-sessions/trigger'') ?body ?w)"
  have h1: "\<not> readOnly demo_config"
    by (simp add: demo_config_def)
  have h2: "api_post demo_config (ustr ''/v1/check-sessions/trigger'') ?body ?w = (Inr ?response, ?w1)"
    by (simp add: api_post_def request_def stub_world_def idle_service_def Let_def)
  have h3: "js_get ?response (ustr ''sessions'') = Inr (JArr [])"
    by simp
  have h4: "JArr [] = JArr [] \<or> JArr [] = JUndefined \<or> JArr [] = JNull"
    by simp
  have h5: "methods (issued ?w) = []"
    by (simp add: stub_world_def methods_def)
  show ?thesis
    using C8_no_session_not_triggered [OF h1 h2 h3 h4, of True] h1 h5 by simp
qed

subsection \<open>The poll loop\<close>

lemma poll_step:
  assumes "api_get config (poll_path sid) (sleep 3000 w) = (r, w')"
  shows "issued w' = issued w @ [(clock w + 3000 + int (timer_lag w (clock w)), poll_request config sid)]"
    and "net w' = net w" and "timer_lag w' = timer_lag w"
    and "r = (case fst (net w (issued w) (clock w + 3000 + int (timer_lag w (clock w)))
                       (poll_request config sid)) of
                FetchFailed \<Rightarrow> Inl NetworkError
              | Response status txt js \<Rightarrow>
                  if \<not> (200 \<le> status \<and> status \<le> 299)
                  then Inl (ApiError GET (poll_path sid) status txt)
                  else if status = 204 then Inr (JObj [])
                  else (case js of None \<Rightarrow> Inl SyntaxError | Some v \<Rightarrow> Inr v))"
proof -
  have w': "w' = snd (request config GET (poll_path sid) JUndefined (sleep 3000 w))"
    and r: "r = fst (request config GET (poll_path sid) JUndefined (sleep 3000 w))"
    using assms by (simp_all add: api_get_def)
  show "issued w' = issued w @ [(clock w + 3000 + int (timer_lag w (clock w)), poll_request config sid)]"
    unfolding w'
    by (simp add: request_issued poll_request_def sleep_def BASE_URL_def poll_path_def ustr_def)
  show "net w' = net w"
    unfolding w' by (simp add: request_net sleep_def)
  show "timer_lag w' = timer_lag w"
    unfolding w' by (simp add: request_timer_lag sleep_def)
  show "r = (case fst (net w (issued w) (clock w + 3000 + int (timer_lag w (clock w)))
                       (poll_request config sid)) of
                FetchFailed \<Rightarrow> Inl NetworkError
              | Response status txt js \<Rightarrow>
                  if \<not> (200 \<le> status \<and> status \<le> 299)
                  then Inl (ApiError GET (poll_path sid) status txt)
                  else if status = 204 then Inr (JObj [])
                  else (case js of None \<Rightarrow> Inl SyntaxError | Some v \<Rightarrow> Inr v))"
    unfolding r
    by (simp add: request_def poll_request_def sleep_def Let_def BASE_URL_def poll_path_def ustr_def
        split: fetch_result.split option.split)
qed

lemma poll_loop_polls:
  "\<exists>polls. issued (snd (poll_loop config session sid deadline w)) = issued w @ polls \<and>
           net (snd (poll_loop config session sid deadline w)) = net w \<and>
           timer_lag (snd (poll_loop config session sid deadline w)) = timer_lag w \<and>
           list_all (poll_in_time config sid deadline (timer_lag w)) polls"
proof (induction config session sid deadline w rule: poll_loop.induct)
  case (1 config session sid deadline w)
  show ?case
  proof (cases "clock w < deadline")
    case False
    then show ?thesis
      by (simp add: poll_loop.simps)
  next
    case True
    obtain r w' where step: "api_get config (poll_path sid) (sleep 3000 w) = (r, w')"
      by fastforce
    note facts = poll_step(1-3) [OF step]
    have this_poll: "poll_in_time config sid deadline (timer_lag w)
        (clock w + 3000 + int (timer_lag w (clock w)), poll_request config sid)"
      using True by (auto simp: poll_in_time_def)
    show ?thesis
    proof (cases "\<exists>polled status. r = Inr polled \<and> js_get polled (ustr ''status'') = Inr status
                    \<and> strict_eq status PROGRESS")
      case False
      then have "snd (poll_loop config session sid deadline w) = w'"
        using True step by (auto simp: poll_loop.simps [of config session sid deadline w] split: sum.splits)
      then show ?thesis
        using facts this_poll by simp
    next
      case again: True
      then obtain polled status where r: "r = Inr polled"
        and st: "js_get polled (ustr ''status'') = Inr status" and pr: "strict_eq status PROGRESS"
        by blast
      have unfold: "poll_loop config session sid deadline w = poll_loop config session sid deadline w'"
        using True step r st pr by (simp add: poll_loop.simps [of config session sid deadline w])
      from "1.IH" [OF True step [symmetric] r st] pr
      obtain polls where
        "issued (snd (poll_loop config session sid deadline w')) = issued w' @ polls"
        "net (snd (poll_loop config session sid deadline w')) = net w'"
        "timer_lag (snd (poll_loop config session sid deadline w')) = timer_lag w'"
        "list_all (poll_in_time config sid deadline (timer_lag w')) polls"
        by auto
      then show ?thesis
        using facts this_poll unfold by simp
    qed
  qed
qed

lemma never_completes_cong: "net w' = net w \<Longrightarrow> never_completes w' config sid = never_completes w config sid"
  by (simp add: never_completes_def)

lemma never_completes_step:
  assumes "never_completes w config sid"
    and "api_get config (poll_path sid) (sleep 3000 w) = (r, w')"
  shows "\<exists>polled. r = Inr polled \<and> js_get polled (ustr ''status'') = Inr PROGRESS"
proof -
  have "in_progress_answer (fst (net w (issued w) (clock w + 3000 + int (timer_lag w (clock w)))
                       (poll_request config sid)))"
    using assms(1) by (simp add: never_completes_def)
  then show ?thesis
    unfolding poll_step(4) [OF assms(2)]
    by (auto simp: in_progress_answer_def split: fetch_result.splits option.splits)
qed

lemma strict_eq_PROGRESS: "strict_eq PROGRESS PROGRESS"
  by (simp add: PROGRESS_def)

lemma poll_loop_never_completes:
  assumes "never_completes w config sid"
  shows "fst (poll_loop config session sid deadline w) = Inr (timeout_result session sid) \<and>
         deadline \<le> clock (snd (poll_loop config session sid deadline w))"
  using assms
proof (induction config session sid deadline w rule: poll_loop.induct)
  case (1 config session sid deadline w)
  show ?case
  proof (cases "clock w < deadline")
    case False
    then show ?thesis
      by (simp add: poll_loop.simps)
  next
    case True
    obtain r w' where step: "api_get config (poll_path sid) (sleep 3000 w) = (r, w')"
      by fastforce
    from never_completes_step [OF "1.prems" step]
    obtain polled where r: "r = Inr polled" and st: "js_get polled (ustr ''status'') = Inr PROGRESS"
      by blast
    have unfold: "poll_loop config session sid deadline w = poll_loop config session sid deadline w'"
      using True step r st by (simp add: poll_loop.simps [of config session sid deadline w] strict_eq_PROGRESS)
    have "never_completes w' config sid"
      using "1.prems" never_completes_cong [OF poll_step(2) [OF step]] by simp
    from "1.IH" [OF True step [symmetric] r st _ this]
    show ?thesis
      using unfold by (simp add: strict_eq_PROGRESS)
  qed
qed

lemma after_polls_poll_loop:
  assumes "after_polls config sid deadline n w = Some wn"
  shows "poll_loop config session sid deadline w = poll_loop config session sid deadline wn \<and>
         methods (issued wn) = methods (issued w) @ replicate n GET"
  using assms
proof (induction n arbitrary: w)
  case 0
  then show ?case by simp
next
  case (Suc n)
  from Suc.prems have lt: "clock w < deadline"
    by (simp split: if_splits)
  obtain r w' where step: "api_get config (poll_path sid) (sleep 3000 w) = (r, w')"
    by fastforce
  from Suc.prems lt step obtain polled status where r: "r = Inr polled"
    and st: "js_get polled (ustr ''status'') = Inr status" and pr: "strict_eq status PROGRESS"
    and rest: "after_polls config sid deadline n w' = Some wn"
    by (auto split: sum.splits if_splits)
  have unfold: "poll_loop config session sid deadline w = poll_loop config session sid deadline w'"
    using lt step r st pr by (simp add: poll_loop.simps [of config session sid deadline w])
  have "methods (issued w') = methods (issued w) @ [GET]"
    using poll_step(1) [OF step] by (simp add: methods_def poll_request_def)
  then show ?case
    using Suc.IH [OF rest] unfold by (simp add: replicate_app_Cons_same)
qed

lemma after_polls_last:
  assumes "after_polls config sid deadline (Suc n) w = Some w'"
  shows "\<exists>wp. after_polls config sid deadline n w = Some wp \<and> clock wp < deadline \<and>
              w' = snd (api_get config (poll_path sid) (sleep 3000 wp))"
  using assms
proof (induction n arbitrary: w)
  case 0
  then show ?case
    by (auto split: if_splits prod.splits sum.splits)
next
  case (Suc n)
  from Suc.prems have lt: "clock w < deadline"
    by (simp split: if_splits)
  obtain r w2 where step: "api_get config (poll_path sid) (sleep 3000 w) = (r, w2)"
    by fastforce
  from Suc.prems lt step obtain polled status where r: "r = Inr polled"
    and st: "js_get polled (ustr ''status'') = Inr status" and pr: "strict_eq status PROGRESS"
    and rest: "after_polls config sid deadline (Suc n) w2 = Some w'"
    by (auto split: sum.splits if_splits)
  from Suc.IH [OF rest] obtain wp where wp: "after_polls config sid deadline n w2 = Some wp"
    and before: "clock wp < deadline"
    and w': "w' = snd (api_get config (poll_path sid) (sleep 3000 wp))"
    by blast
  have "after_polls config sid deadline (Suc n) w = Some wp"
    using lt step r st pr wp by simp
  then show ?case
    using before w' by blast
qed

lemma poll_loop_never_completes_rounds:
  assumes "never_completes w config sid"
  shows "\<exists>n. after_polls config sid deadline n w = Some (snd (poll_loop config session sid deadline w))"
  using assms
proof (induction config session sid deadline w rule: poll_loop.induct)
  case (1 config session sid deadline w)
  show ?case
  proof (cases "clock w < deadline")
    case False
    then have "after_polls config sid deadline 0 w = Some (snd (poll_loop config session sid deadline w))"
      by (simp add: poll_loop.simps)
    then show ?thesis
      by blast
  next
    case True
    obtain r w' where step: "api_get config (poll_path sid) (sleep 3000 w) = (r, w')"
      by fastforce
    from never_completes_step [OF "1.prems" step]
    obtain polled where r: "r = Inr polled" and st: "js_get polled (ustr ''status'') = Inr PROGRESS"
      by blast
    have unfold: "poll_loop config session sid deadline w = poll_loop config session sid deadline w'"
      using True step r st by (simp add: poll_loop.simps [of config session sid deadline w] strict_eq_PROGRESS)
    have "never_completes w' config sid"
      using "1.prems" never_completes_cong [OF poll_step(2) [OF step]] by simp
    from "1.IH" [OF True step [symmetric] r st _ this]
    obtain n where "after_polls config sid deadline n w' = Some (snd (poll_loop config session sid deadline w'))"
      by (auto simp: strict_eq_PROGRESS)
    then have "after_polls config sid deadline (Suc n) w = Some (snd (poll_loop config session sid deadline w))"
      using True step r st unfold by (simp add: strict_eq_PROGRESS)
    then show ?thesis
      by blast
  qed
qed

text \<open>
  The first round of the loop, when it is entered before the deadline: the poll it sends
  and the time it sends it.
\<close>

lemma poll_loop_first_poll:
  assumes "clock w < deadline"
  shows "\<exists>polls. issued (snd (poll_loop config session sid deadline w)) =
           issued w @ (clock w + 3000 + int (timer_lag w (clock w)), poll_request config sid) # polls \<and>
           list_all (\<lambda>c. snd c = poll_request config sid) polls"
proof -
  obtain r w' where step: "api_get config (poll_path sid) (sleep 3000 w) = (r, w')"
    by fastforce
  note first = poll_step(1) [OF step]
  show ?thesis
  proof (cases "\<exists>polled status. r = Inr polled \<and> js_get polled (ustr ''status'') = Inr status
                  \<and> strict_eq status PROGRESS")
    case False
    then have "snd (poll_loop config session sid deadline w) = w'"
      using assms step
      by (auto simp: poll_loop.simps [of config session sid deadline w] split: sum.splits)
    then show ?thesis
      using first by simp
  next
    case True
    then have unfold: "poll_loop config session sid deadline w = poll_loop config session sid deadline w'"
      using assms step by (auto simp: poll_loop.simps [of config session sid deadline w])
    obtain polls where polls: "issued (snd (poll_loop config session sid deadline w')) = issued w' @ polls"
      and each: "list_all (poll_in_time config sid deadline (timer_lag w')) polls"
      using poll_loop_polls [of config session sid deadline w'] by blast
    from each have "list_all (\<lambda>c. snd c = poll_request config sid) polls"
      by (simp add: list_all_iff poll_in_time_def)
    then show ?thesis
      using unfold polls first by simp
  qed
qed

lemma runCheck_first_session:
  assumes "\<not> readOnly config"
    and "api_post config (ustr ''/v1/check-sessions/trigger'')
           (JObj [(ustr ''target'', JObj [(ustr ''checkId'', JArr [check_id])])]) w = (Inr response, w1)"
    and "js_get response (ustr ''sessions'') = Inr (JArr (session # rest))"
  shows "runCheck config check_id awaitResult w =
           (if \<not> awaitResult then
              (case js_get session (ustr ''checkId'') of
                 Inl e \<Rightarrow> (Inl e, w1)
               | Inr checkId \<Rightarrow> (Inr (triggered_result session checkId), w1))
            else
              (case js_get session (ustr ''checkSessionId'') of
                 Inl e \<Rightarrow> (Inl e, w1)
               | Inr sessionId \<Rightarrow> poll_loop config session sessionId (clock w1 + 120000) w1))"
  using assms
  by (simp add: runCheck_def Let_def nullish_or_def member_length member_first)

lemma trigger_world:
  assumes "api_post config path body w = (r, w1)"
  shows "net w1 = net w" and "timer_lag w1 = timer_lag w"
proof -
  have "w1 = snd (request config POST path body w)"
    using assms by (simp add: api_post_def)
  then show "net w1 = net w" and "timer_lag w1 = timer_lag w"
    by (simp_all add: request_net request_timer_lag)
qed

lemmas run_eval = api_post_def api_get_def request_def stub_world_def session_service_def
  stuck_service_def demo_session_def demo_config_def Let_def sleep_def poll_path_def BASE_URL_def
  PROGRESS_def

text \<open>
  C5. In an awaited run, when \<open>n\<close> polls, each begun before the deadline, have found the
  session in progress and the next poll, also begun before the deadline, finds another
  status, \<open>runCheck\<close> returns the completion result built from that polled session, and
  the world it leaves is the one right after that poll: \<open>n + 1\<close> polls in all.
\<close>

theorem C5_returns_at_first_completed_poll:
  assumes "\<not> readOnly config"
    and "api_post config (ustr ''/v1/check-sessions/trigger'')
           (JObj [(ustr ''target'', JObj [(ustr ''checkId'', JArr [check_id])])]) w = (Inr response, w1)"
    and "js_get response (ustr ''sessions'') = Inr (JArr (session # rest))"
    and "js_get session (ustr ''checkSessionId'') = Inr sid"
    and "after_polls config sid (clock w1 + 120000) n w1 = Some wn"
    and "clock wn < clock w1 + 120000"
    and "api_get config (poll_path sid) (sleep 3000 wn) = (Inr polled, w')"
    and "js_get polled (ustr ''status'') = Inr status"
    and "\<not> strict_eq status PROGRESS"
  shows "runCheck config check_id True w =
           (Inr (JObj [(ustr ''message'', JStr (ustr ''Check completed: '' @ js_to_string status)),
                       (ustr ''checkId'', member polled (ustr ''checkId'')),
                       (ustr ''checkName'', member polled (ustr ''name'')),
                       (ustr ''sessionId'', member polled (ustr ''checkSessionId'')),
                       (ustr ''status'', status),
                       (ustr ''runLocations'', member polled (ustr ''runLocations'')),
                       (ustr ''startedAt'', member polled (ustr ''startedAt'')),
                       (ustr ''stoppedAt'', member polled (ustr ''stoppedAt'')),
                       (ustr ''timeElapsedMs'', member polled (ustr ''timeElapsed'')),
                       (ustr ''checkSessionLink'', member polled (ustr ''checkSessionLink'')),
                       (ustr ''results'',
                        (if member polled (ustr ''results'') = JUndefined \<or>
                            member polled (ustr ''results'') = JNull
                         then JArr [] else member polled (ustr ''results'')))]), w') \<and>
         methods (issued w') = methods (issued w1) @ replicate (Suc n) GET"
proof -
  let ?deadline = "clock w1 + 120000"
  have run: "runCheck config check_id True w = poll_loop config session sid ?deadline w1"
    using runCheck_first_session [OF assms(1-3), of True] assms(4) by simp
  have skip: "poll_loop config session sid ?deadline w1 = poll_loop config session sid ?deadline wn"
    and log: "methods (issued wn) = methods (issued w1) @ replicate n GET"
    using after_polls_poll_loop [OF assms(5)] by simp_all
  have last: "poll_loop config session sid ?deadline wn = (Inr (completed_result polled status), w')"
    using assms(6-9) by (simp add: poll_loop.simps [of config session sid ?deadline wn])
  have st: "member polled (ustr ''status'') = status"
    using assms(8) by (simp add: member_def)
  have "methods (issued w') = methods (issued wn) @ [GET]"
    using poll_step(1) [OF assms(7)] by (simp add: methods_def poll_request_def)
  then have "methods (issued w') = methods (issued w1) @ replicate (Suc n) GET"
    using log by (simp add: replicate_append_same)
  then show ?thesis
    using run skip last st by (simp add: completed_result_def nullish_or_def)
qed

text \<open>The second poll finds the session passed: the run returns there, after a POST and two polls.\<close>

theorem C5_witness:
  "\<not> readOnly demo_config \<and>
   fst (runCheck demo_config (JStr (ustr ''X'')) True (stub_world (session_service 2) 20)) =
     Inr (JObj [(ustr ''message'', JStr (ustr ''Check completed: PASSED'')),
                (ustr ''checkId'', JStr (ustr ''X'')),
                (ustr ''checkName'', JStr (ustr ''old'')),
                (ustr ''sessionId'', JStr (ustr ''S1'')),
                (ustr ''status'', JStr (ustr ''PASSED'')),
                (ustr ''runLocations'', JUndefined),
                (ustr ''startedAt'', JUndefined),
                (ustr ''stoppedAt'', JUndefined),
                (ustr ''timeElapsedMs'', JUndefined),
                (ustr ''checkSessionLink'', JStr (ustr ''https://chkly.link/S1'')),
                (ustr ''results'', JArr [])]) \<and>
   methods (issued (snd (runCheck demo_config (JStr (ustr ''X'')) True (stub_world (session_service 2) 20)))) =
     [POST, GET, GET]"
proof -
  let ?w = "stub_world (session_service 2) 20"
  let ?body = "JObj [(ustr ''target'', JObj [(ustr ''checkId'', JArr [JStr (ustr ''X'')])])]"
  let ?s1 = "demo_session (ustr ''S1'') (ustr ''PROGRESS'')"
  let ?s2 = "demo_session (ustr ''S2'') (ustr ''PROGRESS'')"
  let ?done = "demo_session (ustr ''S1'') (ustr ''PASSED'')"
  let ?response = "JObj [(ustr ''sessions'', JArr [?s1, ?s2])]"
  let ?w1 = "snd (api_post demo_config (ustr ''/v1/check-sessions/trigger'') ?body ?w)"
  let ?wn = "snd (api_get demo_config (poll_path (JStr (ustr ''S1''))) (sleep 3000 ?w1))"
  let ?w' = "snd (api_get demo_config (poll_path (JStr (ustr ''S1''))) (sleep 3000 ?wn))"
  have h1: "\<not> readOnly demo_config"
    by (simp add: demo_config_def)
  have h2: "api_post demo_config (ustr ''/v1/check-sessions/trigger'') ?body ?w = (Inr ?response, ?w1)"
    by (simp add: api_post_def request_def stub_world_def session_service_def Let_def)
  have h3: "js_get ?response (ustr ''sessions'') = Inr (JArr (?s1 # [?s2]))"
    by simp
  have h4: "js_get ?s1 (ustr ''checkSessionId'') = Inr (JStr (ustr ''S1''))"
    by (simp add: demo_session_def ustr_def)
  have h5: "after_polls demo_config (JStr (ustr ''S1'')) (clock ?w1 + 120000) (Suc 0) ?w1 = Some ?wn"
    by (simp add: run_eval) (simp add: ustr_def)
  have h6: "clock ?wn < clock ?w1 + 120000"
    by (simp add: run_eval)
  have h7: "api_get demo_config (poll_path (JStr (ustr ''S1''))) (sleep 3000 ?wn) = (Inr ?done, ?w')"
    by (simp add: run_eval)
  have h8: "js_get ?done (ustr ''status'') = Inr (JStr (ustr ''PASSED''))"
    by (simp add: demo_session_def ustr_def)
  have h9: "\<not> strict_eq (JStr (ustr ''PASSED'')) PROGRESS"
    by (simp add: PROGRESS_def ustr_def)
  have m: "member ?done (ustr ''name'') = JStr (ustr ''old'')"
    "member ?done (ustr ''checkId'') = JStr (ustr ''X'')"
    "member ?done (ustr ''checkSessionId'') = JStr (ustr ''S1'')"
    "member ?done (ustr ''runLocations'') = JUndefined"
    "member ?done (ustr ''startedAt'') = JUndefined"
    "member ?done (ustr ''stoppedAt'') = JUndefined"
    "member ?done (ustr ''timeElapsed'') = JUndefined"
    "member ?done (ustr ''results'') = JUndefined"
    "member ?done (ustr ''checkSessionLink'') = JStr (ustr ''https://chkly.link/S1'')"
    by (simp_all add: member_def demo_session_def ustr_def)
  have l: "methods (issued ?w1) = [POST]"
    by (simp add: run_eval methods_def)
  have s: "ustr ''Check completed: '' @ js_to_string (JStr (ustr ''PASSED'')) = ustr ''Check completed: PASSED''"
    by (simp add: ustr_def)
  show ?thesis
    using C5_returns_at_first_completed_poll [OF h1 h2 h3 h4 h5 h6 h7 h8 h9] h1 m l s by simp
qed

text \<open>
  C10. When the trigger returns two or more sessions, only the first is used: the
  immediate result is built from its properties alone, and the awaited path polls that
  session's id. Its first call after the trigger, at the end of the first pause, is a
  GET of \<open>/v1/check-sessions/\<close> followed by that id, and every later call is the same
  request.
\<close>

theorem C10_only_first_session_used:
  assumes "\<not> readOnly config"
    and "api_post config (ustr ''/v1/check-sessions/trigger'')
           (JObj [(ustr ''target'', JObj [(ustr ''checkId'', JArr [check_id])])]) w = (Inr response, w1)"
    and "js_get response (ustr ''sessions'') = Inr (JArr (session # other # rest))"
    and "js_get session (ustr ''checkId'') = Inr cid"
    and "js_get session (ustr ''checkSessionId'') = Inr sid"
  shows "runCheck config check_id False w =
           (Inr (JObj [(ustr ''message'', JStr (ustr ''Check triggered.'')),
                       (ustr ''checkId'', cid),
                       (ustr ''checkName'', member session (ustr ''name'')),
                       (ustr ''sessionId'', sid),
                       (ustr ''status'', member session (ustr ''status'')),
                       (ustr ''runLocations'', member session (ustr ''runLocations'')),
                       (ustr ''startedAt'', member session (ustr ''startedAt'')),
                       (ustr ''checkSessionLink'', member session (ustr ''checkSessionLink'')),
                       (ustr ''hint'',
                        JStr (ustr ''Poll with get_session_status(sessionId) or wait and call get_check_results(checkId).''))]),
            w1) \<and>
         (\<exists>polls. issued (snd (runCheck config check_id True w)) =
                    issued w1 @
                    (clock w1 + 3000 + int (timer_lag w (clock w1)), poll_request config sid) # polls \<and>
                  list_all (\<lambda>c. snd c = poll_request config sid) polls) \<and>
         req_method (poll_request config sid) = GET \<and>
         req_url (poll_request config sid) =
           ustr ''https://api.checklyhq.com/v1/check-sessions/'' @ js_to_string sid"
proof -
  have now: "runCheck config check_id False w = (Inr (triggered_result session cid), w1)"
    using runCheck_first_session [OF assms(1-3), of False] assms(4) by simp
  have sid: "member session (ustr ''checkSessionId'') = sid"
    using assms(5) by (simp add: member_def)
  have run: "runCheck config check_id True w = poll_loop config session sid (clock w1 + 120000) w1"
    using runCheck_first_session [OF assms(1-3), of True] assms(5) by simp
  have "clock w1 < clock w1 + 120000"
    by simp
  from poll_loop_first_poll [OF this, of config session sid]
  have "\<exists>polls. issued (snd (runCheck config check_id True w)) =
                    issued w1 @
                    (clock w1 + 3000 + int (timer_lag w (clock w1)), poll_request config sid) # polls \<and>
                  list_all (\<lambda>c. snd c = poll_request config sid) polls"
    using run trigger_world(2) [OF assms(2)] by simp
  then show ?thesis
    using now sid by (simp add: triggered_result_def poll_request_def)
qed

text \<open>
  Two sessions returned: the results are those of \<open>S1\<close>; the awaited run polls \<open>S1\<close> at
  3020 ms and at 6040 ms, and \<open>S2\<close> never.
\<close>

theorem C10_witness:
  "\<not> readOnly demo_config \<and>
   fst (runCheck demo_config (JStr (ustr ''X'')) False (stub_world (session_service 2) 20)) =
     Inr (JObj [(ustr ''message'', JStr (ustr ''Check triggered.'')),
                (ustr ''checkId'', JStr (ustr ''X'')),
                (ustr ''checkName'', JStr (ustr ''old'')),
                (ustr ''sessionId'', JStr (ustr ''S1'')),
                (ustr ''status'', JStr (ustr ''PROGRESS'')),
                (ustr ''runLocations'', JUndefined),
                (ustr ''startedAt'', JUndefined),
                (ustr ''checkSessionLink'', JStr (ustr ''https://chkly.link/S1'')),
                (ustr ''hint'',
                 JStr (ustr ''Poll with get_session_status(sessionId) or wait and call get_check_results(checkId).''))]) \<and>
   (\<exists>polls. issued (snd (runCheck demo_config (JStr (ustr ''X'')) True (stub_world (session_service 2) 20))) =
              issued (snd (api_post demo_config (ustr ''/v1/check-sessions/trigger'')
                 (JObj [(ustr ''target'', JObj [(ustr ''checkId'', JArr [JStr (ustr ''X'')])])])
                 (stub_world (session_service 2) 20))) @
              (3020, poll_request demo_config (JStr (ustr ''S1''))) # polls \<and>
            list_all (\<lambda>c. snd c = poll_request demo_config (JStr (ustr ''S1''))) polls) \<and>
   map (\<lambda>(t, r). (t, req_method r, req_url r))
     (issued (snd (runCheck demo_config (JStr (ustr ''X'')) True (stub_world (session_service 2) 20)))) =
     [(0, POST, ustr ''https://api.checklyhq.com/v1/check-sessions/trigger''),
      (3020, GET, ustr ''https://api.checklyhq.com/v1/check-sessions/S1''),
      (6040, GET, ustr ''https://api.checklyhq.com/v1/check-sessions/S1'')]"
proof -
  let ?w = "stub_world (session_service 2) 20"
  let ?body = "JObj [(ustr ''target'', JObj [(ustr ''checkId'', JArr [JStr (ustr ''X'')])])]"
  let ?s1 = "demo_session (ustr ''S1'') (ustr ''PROGRESS'')"
  let ?s2 = "demo_session (ustr ''S2'') (ustr ''PROGRESS'')"
  let ?response = "JObj [(ustr ''sessions'', JArr [?s1, ?s2])]"
  let ?w1 = "snd (api_post demo_config (ustr ''/v1/check-sessions/trigger'') ?body ?w)"
  have h1: "\<not> readOnly demo_config"
    by (simp add: demo_config_def)
  have h2: "api_post demo_config (ustr ''/v1/check-sessions/trigger'') ?body ?w = (Inr ?response, ?w1)"
    by (simp add: api_post_def request_def stub_world_def session_service_def Let_def)
  have h3: "js_get ?response (ustr ''sessions'') = Inr (JArr (?s1 # ?s2 # []))"
    by simp
  have h4: "js_get ?s1 (ustr ''checkId'') = Inr (JStr (ustr ''X''))"
    by (simp add: demo_session_def ustr_def)
  have h5: "js_get ?s1 (ustr ''checkSessionId'') = Inr (JStr (ustr ''S1''))"
    by (simp add: demo_session_def ustr_def)
  have m: "member ?s1 (ustr ''name'') = JStr (ustr ''old'')"
    "member ?s1 (ustr ''status'') = JStr (ustr ''PROGRESS'')"
    "member ?s1 (ustr ''runLocations'') = JUndefined"
    "member ?s1 (ustr ''startedAt'') = JUndefined"
    "member ?s1 (ustr ''checkSessionLink'') = JStr (ustr ''https://chkly.link/S1'')"
    by (simp_all add: member_def demo_session_def ustr_def)
  have c: "clock ?w1 = 20"
    by (simp add: run_eval)
  have l: "timer_lag ?w = (\<lambda>t. 0)"
    by (simp add: stub_world_def)
  have trace: "map (\<lambda>(t, r). (t, req_method r, req_url r))
     (issued (snd (runCheck demo_config (JStr (ustr ''X'')) True ?w))) =
     [(0, POST, ustr ''https://api.checklyhq.com/v1/check-sessions/trigger''),
      (3020, GET, ustr ''https://api.checklyhq.com/v1/check-sessions/S1''),
      (6040, GET, ustr ''https://api.checklyhq.com/v1/check-sessions/S1'')]"
    by (simp add: runCheck_def run_eval nullish_or_def member_def poll_loop.simps
          decimal.simps ustr_def)
  show ?thesis
    using C10_only_first_session_used [OF h1 h2 h3 h4 h5] h1 m c l trace by simp
qed

text \<open>
  C4, as the code has it. In an awaited run whose session never leaves the in-progress
  status, \<open>runCheck\<close> returns the timeout result, with the session id and the link, at
  the first test of the loop condition made at or after the deadline of 120 seconds from
  loop entry: some \<open>n\<close> rounds, each entered before the deadline, lead to a world that
  is still before the deadline; one more round is entered there, and the world right
  after its poll, at or after the deadline, is the world returned. Every poll comes at
  the end of a pause that began before the deadline; the last poll can therefore be sent
  after the deadline.
\<close>

theorem C4_timeout_when_never_completed:
  assumes "\<not> readOnly config"
    and "api_post config (ustr ''/v1/check-sessions/trigger'')
           (JObj [(ustr ''target'', JObj [(ustr ''checkId'', JArr [check_id])])]) w = (Inr response, w1)"
    and "js_get response (ustr ''sessions'') = Inr (JArr (session # rest))"
    and "js_get session (ustr ''checkSessionId'') = Inr sid"
    and "never_completes w config sid"
  shows "\<exists>n wp polls w'.
           runCheck config check_id True w =
             (Inr (JObj [(ustr ''message'', JStr (ustr ''Timed out waiting for check to complete (120s).'')),
                         (ustr ''sessionId'', sid),
                         (ustr ''checkSessionLink'', member session (ustr ''checkSessionLink'')),
                         (ustr ''hint'',
                          JStr (ustr ''Check is still running. Use checkSessionLink to view in Checkly UI.''))]),
              w') \<and>
           after_polls config sid (clock w1 + 120000) n w1 = Some wp \<and>
           clock wp < clock w1 + 120000 \<and>
           w' = snd (api_get config (poll_path sid) (sleep 3000 wp)) \<and>
           clock w1 + 120000 \<le> clock w' \<and>
           issued w' = issued w1 @ polls \<and>
           length polls = Suc n \<and>
           list_all (poll_in_time config sid (clock w1 + 120000) (timer_lag w)) polls"
proof -
  let ?deadline = "clock w1 + 120000"
  let ?run = "poll_loop config session sid ?deadline w1"
  have run: "runCheck config check_id True w = ?run"
    using runCheck_first_session [OF assms(1-3), of True] assms(4) by simp
  have never: "never_completes w1 config sid"
    using assms(5) never_completes_cong [OF trigger_world(1) [OF assms(2)]] by simp
  from poll_loop_never_completes [OF never, of session ?deadline]
  have res: "fst ?run = Inr (timeout_result session sid)" and late: "?deadline \<le> clock (snd ?run)"
    by simp_all
  obtain m where rounds: "after_polls config sid ?deadline m w1 = Some (snd ?run)"
    using poll_loop_never_completes_rounds [OF never, of ?deadline session] by blast
  have "m \<noteq> 0"
    using rounds late by (cases m) auto
  then obtain n where m: "m = Suc n"
    by (cases m) auto
  from after_polls_last [OF rounds [unfolded m]]
  obtain wp where wp: "after_polls config sid ?deadline n w1 = Some wp"
    and before: "clock wp < ?deadline"
    and last: "snd ?run = snd (api_get config (poll_path sid) (sleep 3000 wp))"
    by blast
  obtain polls where polls: "issued (snd ?run) = issued w1 @ polls"
    and each: "list_all (poll_in_time config sid ?deadline (timer_lag w1)) polls"
    using poll_loop_polls [of config session sid ?deadline w1] by blast
  have "methods (issued (snd ?run)) = methods (issued w1) @ replicate m GET"
    using after_polls_poll_loop [OF rounds, of session] by simp
  then have "length (issued (snd ?run)) = length (issued w1) + m"
    by (metis length_append length_map length_replicate methods_def)
  then have count: "length polls = Suc n"
    using polls m by simp
  have whole: "?run = (Inr (timeout_result session sid), snd ?run)"
    using res by (metis prod.collapse)
  have "runCheck config check_id True w =
          (Inr (JObj [(ustr ''message'', JStr (ustr ''Timed out waiting for check to complete (120s).'')),
                      (ustr ''sessionId'', sid),
                      (ustr ''checkSessionLink'', member session (ustr ''checkSessionLink'')),
                      (ustr ''hint'',
                       JStr (ustr ''Check is still running. Use checkSessionLink to view in Checkly UI.''))]),
           snd ?run)"
    using run whole by (simp add: timeout_result_def)
  moreover have "list_all (poll_in_time config sid ?deadline (timer_lag w)) polls"
    using each trigger_world(2) [OF assms(2)] by simp
  ultimately show ?thesis
    using wp before last late polls count by blast
qed

text \<open>
  The run against a session that never completes, with calls of 100 ms: it returns at
  121000 ms, after the trigger and 39 polls, the last of them sent at 120900 ms.
\<close>

lemma stuck_run:
  "(let w' = snd (runCheck demo_config (JStr (ustr ''X'')) True (stub_world stuck_service 100))
    in (clock w', length (issued w'), last (issued w'))) =
   (121000, 40, (120900, poll_request demo_config (JStr (ustr ''S1''))))"
  by (simp add: runCheck_def run_eval nullish_or_def member_def poll_loop.simps poll_request_def
        decimal.simps ustr_def)

text \<open>A session that never completes, with calls of 100 ms: the timeout result, at 121000 ms.\<close>

theorem C4_witness:
  "\<not> readOnly demo_config \<and>
   never_completes (stub_world stuck_service 100) demo_config (JStr (ustr ''S1'')) \<and>
   (\<exists>n wp polls w'.
      runCheck demo_config (JStr (ustr ''X'')) True (stub_world stuck_service 100) =
        (Inr (JObj [(ustr ''message'', JStr (ustr ''Timed out waiting for check to complete (120s).'')),
                    (ustr ''sessionId'', JStr (ustr ''S1'')),
                    (ustr ''checkSessionLink'', JStr (ustr ''https://chkly.link/S1'')),
                    (ustr ''hint'',
                     JStr (ustr ''Check is still running. Use checkSessionLink to view in Checkly UI.''))]),
         w') \<and>
      after_polls demo_config (JStr (ustr ''S1'')) 120100 n
        (snd (api_post demo_config (ustr ''/v1/check-sessions/trigger'')
                 (JObj [(ustr ''target'', JObj [(ustr ''checkId'', JArr [JStr (ustr ''X'')])])])
                 (stub_world stuck_service 100))) = Some wp \<and>
      clock wp < 120100 \<and>
      w' = snd (api_get demo_config (poll_path (JStr (ustr ''S1''))) (sleep 3000 wp)) \<and>
      120100 \<le> clock w' \<and>
      issued w' = issued (snd (api_post demo_config (ustr ''/v1/check-sessions/trigger'')
                 (JObj [(ustr ''target'', JObj [(ustr ''checkId'', JArr [JStr (ustr ''X'')])])])
                 (stub_world stuck_service 100))) @ polls \<and>
      length polls = Suc n \<and>
      list_all (poll_in_time demo_config (JStr (ustr ''S1'')) 120100 (\<lambda>t. 0)) polls) \<and>
   clock (snd (runCheck demo_config (JStr (ustr ''X'')) True (stub_world stuck_service 100))) = 121000 \<and>
   length (issued (snd (runCheck demo_config (JStr (ustr ''X'')) True (stub_world stuck_service 100)))) = 40"
proof -
  let ?w = "stub_world stuck_service 100"
  let ?body = "JObj [(ustr ''target'', JObj [(ustr ''checkId'', JArr [JStr (ustr ''X'')])])]"
  let ?s1 = "demo_session (ustr ''S1'') (ustr ''PROGRESS'')"
  let ?response = "JObj [(ustr ''sessions'', JArr [?s1])]"
  let ?w1 = "snd (api_post demo_config (ustr ''/v1/check-sessions/trigger'') ?body ?w)"
  have h1: "\<not> readOnly demo_config"
    by (simp add: demo_config_def)
  have h2: "api_post demo_config (ustr ''/v1/check-sessions/trigger'') ?body ?w = (Inr ?response, ?w1)"
    by (simp add: api_post_def request_def stub_world_def stuck_service_def Let_def)
  have h3: "js_get ?response (ustr ''sessions'') = Inr (JArr (?s1 # []))"
    by simp
  have h4: "js_get ?s1 (ustr ''checkSessionId'') = Inr (JStr (ustr ''S1''))"
    by (simp add: demo_session_def ustr_def)
  have h5: "never_completes ?w demo_config (JStr (ustr ''S1''))"
    by (simp add: never_completes_def in_progress_answer_def stub_world_def stuck_service_def
        poll_request_def demo_session_def PROGRESS_def ustr_def)
  have c: "clock ?w1 = 100"
    by (simp add: run_eval)
  have l: "timer_lag ?w = (\<lambda>t. 0)"
    by (simp add: stub_world_def)
  have m: "member ?s1 (ustr ''checkSessionLink'') = JStr (ustr ''https://chkly.link/S1'')"
    by (simp add: member_def demo_session_def ustr_def)
  have t: "clock (snd (runCheck demo_config (JStr (ustr ''X'')) True ?w)) = 121000"
    "length (issued (snd (runCheck demo_config (JStr (ustr ''X'')) True ?w))) = 40"
    using stuck_run by (simp_all add: Let_def)
  show ?thesis
    using C4_timeout_when_never_completed [OF h1 h2 h3 h4 h5] h1 h5 c l m t by simp
qed

text \<open>
  C4 as stated fails. Every call takes 100 ms and the session stays in progress. The
  loop is entered at 100 ms, so the deadline is 120100 ms; the round entered at 117900 ms
  pauses until 120900 ms and polls then, after the deadline.
\<close>

theorem C4_counterexample:
  "never_completes (stub_world stuck_service 100) demo_config (JStr (ustr ''S1'')) \<and>
   clock (snd (api_post demo_config (ustr ''/v1/check-sessions/trigger'')
            (JObj [(ustr ''target'', JObj [(ustr ''checkId'', JArr [JStr (ustr ''X'')])])])
            (stub_world stuck_service 100))) + 120000 = 120100 \<and>
   last (issued (snd (runCheck demo_config (JStr (ustr ''X'')) True (stub_world stuck_service 100)))) =
     (120900, poll_request demo_config (JStr (ustr ''S1''))) \<and>
   clock (snd (api_post demo_config (ustr ''/v1/check-sessions/trigger'')
            (JObj [(ustr ''target'', JObj [(ustr ''checkId'', JArr [JStr (ustr ''X'')])])])
            (stub_world stuck_service 100))) + 120000
     < fst (last (issued (snd (runCheck demo_config (JStr (ustr ''X'')) True
                                 (stub_world stuck_service 100)))))"
proof -
  have a: "never_completes (stub_world stuck_service 100) demo_config (JStr (ustr ''S1''))"
    by (simp add: never_completes_def in_progress_answer_def stub_world_def stuck_service_def
        poll_request_def demo_session_def PROGRESS_def ustr_def)
  have b: "clock (snd (api_post demo_config (ustr ''/v1/check-sessions/trigger'')
            (JObj [(ustr ''target'', JObj [(ustr ''checkId'', JArr [JStr (ustr ''X'')])])])
            (stub_world stuck_service 100))) + 120000 = 120100"
    by (simp add: run_eval)
  have c: "last (issued (snd (runCheck demo_config (JStr (ustr ''X'')) True (stub_world stuck_service 100)))) =
     (120900, poll_request demo_config (JStr (ustr ''S1'')))"
    using stuck_run by (simp add: Let_def)
  show ?thesis
    unfolding b c using a by simp
qed

section \<open>updateCheck\<close>

lemma map_of_set_prop: "map_of (set_prop ps k v) k' = (if k' = k then Some v else map_of ps k')"
  by (induction ps) auto

lemma spread_other: "k \<notin> fst ` set b \<Longrightarrow> map_of (spread a b) k = map_of a k"
  unfolding spread_def
  by (induction b arbitrary: a) (auto simp: map_of_set_prop)

lemma spread_requested:
  "distinct (map fst b) \<Longrightarrow> (k, v) \<in> set b \<Longrightarrow> map_of (spread a b) k = Some v"
proof (induction b arbitrary: a)
  case Nil
  then show ?case by simp
next
  case (Cons p b)
  obtain k' v' where p: "p = (k', v')"
    by (cases p)
  show ?case
  proof (cases "(k, v) \<in> set b")
    case True
    then have "map_of (spread (set_prop a k' v') b) k = Some v"
      using Cons.IH Cons.prems(1) by simp
    then show ?thesis
      by (simp add: spread_def p)
  next
    case False
    then have same: "k' = k" "v' = v"
      using Cons.prems(2) p by auto
    then have "k \<notin> fst ` set b"
      using Cons.prems(1) p by auto
    then have "map_of (spread (set_prop a k v) b) k = map_of (set_prop a k v) k"
      by (rule spread_other)
    then show ?thesis
      using same by (simp add: spread_def p map_of_set_prop)
  qed
qed

lemma stringify_lookup:
  "map_of ps k = Some v \<Longrightarrow> v \<noteq> JUndefined \<Longrightarrow>
   map_of (map (\<lambda>(k, v). (k, JSON_stringify v)) (filter (\<lambda>(k, v). v \<noteq> JUndefined) ps)) k =
     Some (JSON_stringify v)"
  by (induction ps) (auto split: if_splits)

lemma js_get_any: "js_get v k = Inr x \<Longrightarrow> js_get v k' = Inr (member v k')"
  by (cases v) (auto simp: member_def)

lemma build_diff_unchanged:
  assumes "\<forall>(k, v) \<in> set updates. v \<noteq> JUndefined \<longrightarrow> (\<exists>cur. js_get current k = Inr cur \<and> strict_eq cur v)"
  shows "build_diff current updates acc = Inr acc"
  using assms by (induction updates arbitrary: acc) auto

lemma build_diff_no_object:
  assumes "build_diff current updates acc = Inr diff" and "\<And>k. js_get current k = Inl TypeError"
  shows "diff = acc"
  using assms by (induction updates arbitrary: acc) (auto split: if_splits)

lemma build_diff_reads:
  assumes "build_diff current updates [] = Inr diff" and "diff \<noteq> []"
  shows "js_get current k = Inr (member current k)"
proof (cases "current = JUndefined \<or> current = JNull")
  case True
  then have "\<And>k. js_get current k = Inl TypeError"
    by auto
  from build_diff_no_object [OF assms(1) this] assms(2) show ?thesis
    by simp
next
  case False
  then show ?thesis
    by (cases current) (auto simp: member_def)
qed

lemma build_diff_total:
  assumes "js_get current k0 = Inr x"
  shows "\<exists>diff. build_diff current updates acc = Inr diff"
proof (induction updates arbitrary: acc)
  case Nil
  show ?case by simp
next
  case (Cons p updates)
  obtain k v where p: "p = (k, v)"
    by (cases p)
  have "js_get current k = Inr (member current k)"
    using assms by (rule js_get_any)
  then show ?case
    using Cons.IH by (simp add: p)
qed

lemma build_diff_other:
  "k \<notin> fst ` set updates \<Longrightarrow> build_diff current updates acc = Inr diff \<Longrightarrow>
   map_of diff k = map_of acc k"
  by (induction updates arbitrary: acc) (auto simp: map_of_set_prop split: if_splits sum.splits)

lemma build_diff_changed:
  assumes "distinct (map fst updates)" and "(k, v) \<in> set updates" and "v \<noteq> JUndefined"
    and "js_get current k = Inr cur" and "\<not> strict_eq cur v"
    and "build_diff current updates acc = Inr diff"
  shows "map_of diff k = Some (JObj [(ustr ''from'', preview cur), (ustr ''to'', preview v)])"
  using assms
proof (induction updates arbitrary: acc)
  case Nil
  then show ?case by simp
next
  case (Cons p updates)
  obtain k' v' where p: "p = (k', v')"
    by (cases p)
  show ?case
  proof (cases "(k, v) \<in> set updates")
    case True
    obtain acc' where "build_diff current updates acc' = Inr diff"
      using Cons.prems(6) by (auto simp: p split: if_splits sum.splits)
    then show ?thesis
      using Cons.IH [OF _ True Cons.prems(3-5)] Cons.prems(1) by simp
  next
    case False
    then have same: "k' = k" "v' = v"
      using Cons.prems(2) p by auto
    then have fresh: "k \<notin> fst ` set updates"
      using Cons.prems(1) p by auto
    let ?acc = "set_prop acc k (JObj [(ustr ''from'', preview cur), (ustr ''to'', preview v)])"
    have "build_diff current updates ?acc = Inr diff"
      using Cons.prems(3-6) same by (simp add: p)
    from build_diff_other [OF fresh this] show ?thesis
      by (simp add: map_of_set_prop)
  qed
qed

lemma updateCheck_fetched:
  assumes "\<not> readOnly config"
    and "api_get config (ustr ''/v1/checks/'' @ js_to_string check_id) w = (Inr current, w1)"
    and "build_diff current updates [] = Inr diff"
  shows "updateCheck config check_id updates confirm w =
           (if length diff = 0 then
              (Inr (JObj [(ustr ''message'', JStr (ustr ''No changes detected.'')),
                          (ustr ''diff'', JObj [])]), w1)
            else if \<not> confirm then
              (Inr (JObj [(ustr ''message'',
                           JStr (ustr ''Dry run '' @ [0x2014] @ ustr '' pass confirm: true to apply.'')),
                          (ustr ''checkId'', check_id),
                          (ustr ''checkName'', member current (ustr ''name'')),
                          (ustr ''diff'', JObj diff)]), w1)
            else
              (case api_put config (ustr ''/v1/checks/'' @ js_to_string check_id)
                      (JObj (spread (own_props current) updates)) w1 of
                 (Inl e, w2) \<Rightarrow> (Inl e, w2)
               | (Inr updated, w2) \<Rightarrow>
                   (case js_get updated (ustr ''id'') of
                      Inl e \<Rightarrow> (Inl e, w2)
                    | Inr updatedId \<Rightarrow>
                        (Inr (JObj [(ustr ''message'', JStr (ustr ''Check updated successfully.'')),
                                    (ustr ''checkId'', updatedId),
                                    (ustr ''checkName'', member updated (ustr ''name'')),
                                    (ustr ''diff'', JObj diff),
                                    (ustr ''updatedAt'', member updated (ustr ''updatedAt''))]),
                         w2))))"
proof (cases "diff = []")
  case True
  then show ?thesis
    using assms by (simp add: updateCheck_def)
next
  case False
  then have "js_get current (ustr ''name'') = Inr (member current (ustr ''name''))"
    using build_diff_reads [OF assms(3)] by simp
  then show ?thesis
    using assms False by (simp add: updateCheck_def Let_def)
qed

lemma fetch_methods:
  assumes "api_get config path w = (r, w1)"
  shows "methods (issued w1) = methods (issued w) @ [GET]"
  using assms by (simp add: api_get_def request_methods)

lemmas check_eval = api_get_def api_put_def request_def stub_world_def check_service_def
  demo_check_def demo_config_def Let_def BASE_URL_def

text \<open>
  C2. When every requested field is strictly equal to that field of the fetched check,
  the diff is empty and \<open>updateCheck\<close> returns the no-changes result with an empty diff,
  for either value of \<open>confirm\<close>; the fetch is the only call issued.
\<close>

theorem C2_equal_fields_no_changes:
  assumes "\<not> readOnly config"
    and "api_get config (ustr ''/v1/checks/'' @ js_to_string check_id) w = (Inr current, w1)"
    and "\<forall>(k, v) \<in> set updates.
           v \<noteq> JUndefined \<longrightarrow> (\<exists>cur. js_get current k = Inr cur \<and> strict_eq cur v)"
  shows "build_diff current updates [] = Inr [] \<and>
         updateCheck config check_id updates confirm w =
           (Inr (JObj [(ustr ''message'', JStr (ustr ''No changes detected.'')),
                       (ustr ''diff'', JObj [])]), w1) \<and>
         methods (issued w1) = methods (issued w) @ [GET]"
proof -
  have diff: "build_diff current updates [] = Inr []"
    using assms(3) by (rule build_diff_unchanged)
  show ?thesis
    using updateCheck_fetched [OF assms(1,2) diff, of confirm] diff fetch_methods [OF assms(2)]
    by simp
qed

text \<open>The name and the frequency asked for are the current ones, with \<open>confirm\<close> true: no change, one GET.\<close>

theorem C2_witness:
  "\<not> readOnly demo_config \<and>
   build_diff demo_check
     [(ustr ''script'', JUndefined), (ustr ''name'', JStr (ustr ''old'')),
      (ustr ''activated'', JUndefined), (ustr ''frequency'', JNum 5)] [] = Inr [] \<and>
   fst (updateCheck demo_config (JStr (ustr ''X''))
     [(ustr ''script'', JUndefined), (ustr ''name'', JStr (ustr ''old'')),
      (ustr ''activated'', JUndefined), (ustr ''frequency'', JNum 5)] True
     (stub_world check_service 20)) =
     Inr (JObj [(ustr ''message'', JStr (ustr ''No changes detected.'')), (ustr ''diff'', JObj [])]) \<and>
   methods (issued (snd (updateCheck demo_config (JStr (ustr ''X''))
     [(ustr ''script'', JUndefined), (ustr ''name'', JStr (ustr ''old'')),
      (ustr ''activated'', JUndefined), (ustr ''frequency'', JNum 5)] True
     (stub_world check_service 20)))) = [GET]"
proof -
  let ?w = "stub_world check_service 20"
  let ?path = "ustr ''/v1/checks/'' @ js_to_string (JStr (ustr ''X''))"
  let ?w1 = "snd (api_get demo_config ?path ?w)"
  let ?updates = "[(ustr ''script'', JUndefined), (ustr ''name'', JStr (ustr ''old'')),
      (ustr ''activated'', JUndefined), (ustr ''frequency'', JNum 5)]"
  have h1: "\<not> readOnly demo_config"
    by (simp add: demo_config_def)
  have h2: "api_get demo_config ?path ?w = (Inr demo_check, ?w1)"
    by (simp add: api_get_def request_def stub_world_def check_service_def Let_def)
  have h3: "\<forall>(k, v) \<in> set ?updates.
           v \<noteq> JUndefined \<longrightarrow> (\<exists>cur. js_get demo_check k = Inr cur \<and> strict_eq cur v)"
    by (simp add: demo_check_def ustr_def)
  have l: "methods (issued ?w) = []"
    by (simp add: stub_world_def methods_def)
  show ?thesis
    using C2_equal_fields_no_changes [OF h1 h2 h3, of True] h1 l by simp
qed

text \<open>
  C6. With a non-empty diff and \<open>confirm\<close> false, \<open>updateCheck\<close> returns the dry-run
  result with the target id, the current name and the diff; the fetch is the only call
  issued, and the same call made in any world where the fetch returns the same check
  gives the same result, again with the fetch as its only call.
\<close>

theorem C6_dry_run_reads_only_and_repeats:
  assumes "\<not> readOnly config"
    and "api_get config (ustr ''/v1/checks/'' @ js_to_string check_id) w = (Inr current, w1)"
    and "build_diff current updates [] = Inr diff" and "diff \<noteq> []"
    and "api_get config (ustr ''/v1/checks/'' @ js_to_string check_id) w' = (Inr current, w1')"
  shows "updateCheck config check_id updates False w =
           (Inr (JObj [(ustr ''message'',
                        JStr (ustr ''Dry run '' @ [0x2014] @ ustr '' pass confirm: true to apply.'')),
                       (ustr ''checkId'', check_id),
                       (ustr ''checkName'', member current (ustr ''name'')),
                       (ustr ''diff'', JObj diff)]), w1) \<and>
         methods (issued w1) = methods (issued w) @ [GET] \<and>
         fst (updateCheck config check_id updates False w') =
           fst (updateCheck config check_id updates False w) \<and>
         snd (updateCheck config check_id updates False w') = w1' \<and>
         methods (issued w1') = methods (issued w') @ [GET]"
  using updateCheck_fetched [OF assms(1,2,3), of False] updateCheck_fetched [OF assms(1,5,3), of False]
    assms(4) fetch_methods [OF assms(2)] fetch_methods [OF assms(5)]
  by simp

text \<open>Frequency 5 to 10 without \<open>confirm\<close>, twice in a row: the same dry-run result, and only reads.\<close>

theorem C6_witness:
  "\<not> readOnly demo_config \<and>
   fst (updateCheck demo_config (JStr (ustr ''X'')) [(ustr ''frequency'', JNum 10)] False
          (stub_world check_service 20)) =
     Inr (JObj [(ustr ''message'',
                 JStr (ustr ''Dry run '' @ [0x2014] @ ustr '' pass confirm: true to apply.'')),
                (ustr ''checkId'', JStr (ustr ''X'')),
                (ustr ''checkName'', JStr (ustr ''old'')),
                (ustr ''diff'',
                 JObj [(ustr ''frequency'', JObj [(ustr ''from'', JNum 5), (ustr ''to'', JNum 10)])])]) \<and>
   methods (issued (snd (updateCheck demo_config (JStr (ustr ''X'')) [(ustr ''frequency'', JNum 10)] False
          (stub_world check_service 20)))) = [GET] \<and>
   fst (updateCheck demo_config (JStr (ustr ''X'')) [(ustr ''frequency'', JNum 10)] False
          (snd (updateCheck demo_config (JStr (ustr ''X'')) [(ustr ''frequency'', JNum 10)] False
                 (stub_world check_service 20)))) =
     fst (updateCheck demo_config (JStr (ustr ''X'')) [(ustr ''frequency'', JNum 10)] False
          (stub_world check_service 20)) \<and>
   methods (issued (snd (updateCheck demo_config (JStr (ustr ''X'')) [(ustr ''frequency'', JNum 10)] False
          (snd (updateCheck demo_config (JStr (ustr ''X'')) [(ustr ''frequency'', JNum 10)] False
                 (stub_world check_service 20)))))) = [GET, GET]"
proof -
  let ?w = "stub_world check_service 20"
  let ?path = "ustr ''/v1/checks/'' @ js_to_string (JStr (ustr ''X''))"
  let ?w1 = "snd (api_get demo_config ?path ?w)"
  let ?w2 = "snd (api_get demo_config ?path ?w1)"
  let ?updates = "[(ustr ''frequency'', JNum 10)]"
  let ?diff = "[(ustr ''frequency'', JObj [(ustr ''from'', JNum 5), (ustr ''to'', JNum 10)])]"
  have h1: "\<not> readOnly demo_config"
    by (simp add: demo_config_def)
  have h2: "api_get demo_config ?path ?w = (Inr demo_check, ?w1)"
    by (simp add: api_get_def request_def stub_world_def check_service_def Let_def)
  have h3: "build_diff demo_check ?updates [] = Inr ?diff"
    by (simp add: demo_check_def ustr_def)
  have h4: "?diff \<noteq> []"
    by simp
  have h5: "api_get demo_config ?path ?w1 = (Inr demo_check, ?w2)"
    by (simp add: api_get_def request_def stub_world_def check_service_def Let_def)
  have l: "methods (issued ?w) = []"
    by (simp add: stub_world_def methods_def)
  have m: "member demo_check (ustr ''name'') = JStr (ustr ''old'')"
    by (simp add: member_def demo_check_def ustr_def)
  show ?thesis
    using C6_dry_run_reads_only_and_repeats [OF h1 h2 h3 h4 h5] h1 l m by simp
qed

text \<open>
  C7. For a requested string that differs from the fetched value, the diff entry shows
  both values cut to 120 code units followed by an ellipsis when they are longer, and
  the body of the write carries the requested string in full, whatever its length.
\<close>

theorem C7_truncation_is_display_only:
  assumes "\<not> readOnly config"
    and "api_get config (ustr ''/v1/checks/'' @ js_to_string check_id) w = (Inr current, w1)"
    and "distinct (map fst updates)" and "(k, JStr s) \<in> set updates"
    and "js_get current k = Inr cur" and "\<not> strict_eq cur (JStr s)"
  shows "\<exists>diff t req body.
           build_diff current updates [] = Inr diff \<and>
           map_of diff k =
             Some (JObj [(ustr ''from'',
                          (case cur of
                             JStr c \<Rightarrow> if length c > 120 then JStr (take 120 c @ [0x2026]) else JStr c
                           | _ \<Rightarrow> cur)),
                         (ustr ''to'',
                          (if length s > 120 then JStr (take 120 s @ [0x2026]) else JStr s))]) \<and>
           issued (snd (updateCheck config check_id updates True w)) = issued w1 @ [(t, req)] \<and>
           req_method req = PUT \<and> req_body req = Some body \<and>
           js_get body k = Inr (JStr s)"
proof -
  obtain diff where diff: "build_diff current updates [] = Inr diff"
    using build_diff_total [OF assms(5)] by blast
  have entry: "map_of diff k = Some (JObj [(ustr ''from'', preview cur), (ustr ''to'', preview (JStr s))])"
    using build_diff_changed [OF assms(3,4) _ assms(5,6) diff] by simp
  then have nonempty: "diff \<noteq> []"
    by auto
  have shown: "preview cur =
      (case cur of JStr c \<Rightarrow> if length c > 120 then JStr (take 120 c @ [0x2026]) else JStr c | _ \<Rightarrow> cur)"
    by (cases cur) simp_all
  let ?path = "ustr ''/v1/checks/'' @ js_to_string check_id"
  let ?payload = "JObj (spread (own_props current) updates)"
  let ?put = "request config PUT ?path ?payload w1"
  have "snd (updateCheck config check_id updates True w) = snd ?put"
    using updateCheck_fetched [OF assms(1,2) diff, of True] nonempty
    by (simp add: api_put_def split: prod.splits sum.splits)
  let ?req = "\<lparr>req_url = BASE_URL @ ?path, req_method = PUT,
         req_authorization = ustr ''Bearer '' @ apiKey config,
         req_account = accountId config,
         req_content_type = ustr ''application/json'',
         req_body = Some (JSON_stringify ?payload)\<rparr>"
  have log: "issued (snd (updateCheck config check_id updates True w)) = issued w1 @ [(clock w1, ?req)]"
    using \<open>snd (updateCheck config check_id updates True w) = snd ?put\<close>
    by (simp add: request_issued)
  have put: "req_method ?req = PUT" and sent: "req_body ?req = Some (JSON_stringify ?payload)"
    by simp_all
  have "map_of (spread (own_props current) updates) k = Some (JStr s)"
    using assms(3,4) by (rule spread_requested)
  then have full: "js_get (JSON_stringify ?payload) k = Inr (JStr s)"
    using stringify_lookup [of "spread (own_props current) updates" k "JStr s"] by simp
  have entry': "map_of diff k =
             Some (JObj [(ustr ''from'',
                          (case cur of
                             JStr c \<Rightarrow> if length c > 120 then JStr (take 120 c @ [0x2026]) else JStr c
                           | _ \<Rightarrow> cur)),
                         (ustr ''to'',
                          (if length s > 120 then JStr (take 120 s @ [0x2026]) else JStr s))])"
    using entry shown by simp
  show ?thesis
    using diff entry' log put sent full by blast
qed

text \<open>A script of 500 code units: the diff shows 120 and the ellipsis, the write carries all 500.\<close>

theorem C7_witness:
  "\<not> readOnly demo_config \<and>
   (\<exists>diff t req body.
      build_diff demo_check [(ustr ''script'', JStr (replicate 500 97))] [] = Inr diff \<and>
      map_of diff (ustr ''script'') =
        Some (JObj [(ustr ''from'', JStr (ustr ''s'')),
                    (ustr ''to'', JStr (replicate 120 97 @ [0x2026]))]) \<and>
      issued (snd (updateCheck demo_config (JStr (ustr ''X''))
                     [(ustr ''script'', JStr (replicate 500 97))] True (stub_world check_service 20))) =
        issued (snd (api_get demo_config (ustr ''/v1/checks/'' @ js_to_string (JStr (ustr ''X'')))
                       (stub_world check_service 20))) @ [(t, req)] \<and>
      req_method req = PUT \<and> req_body req = Some body \<and>
      js_get body (ustr ''script'') = Inr (JStr (replicate 500 97)))"
proof -
  let ?w = "stub_world check_service 20"
  let ?path = "ustr ''/v1/checks/'' @ js_to_string (JStr (ustr ''X''))"
  let ?w1 = "snd (api_get demo_config ?path ?w)"
  let ?updates = "[(ustr ''script'', JStr (replicate 500 97))]"
  have h1: "\<not> readOnly demo_config"
    by (simp add: demo_config_def)
  have h2: "api_get demo_config ?path ?w = (Inr demo_check, ?w1)"
    by (simp add: api_get_def request_def stub_world_def check_service_def Let_def)
  have h3: "distinct (map fst ?updates)"
    by simp
  have h4: "(ustr ''script'', JStr (replicate 500 97)) \<in> set ?updates"
    by simp
  have h5: "js_get demo_check (ustr ''script'') = Inr (JStr (ustr ''s''))"
    by (simp add: demo_check_def ustr_def)
  have "length (ustr ''s'') \<noteq> length (replicate 500 (97 :: 16 word))"
    by (simp add: ustr_def)
  then have h6: "\<not> strict_eq (JStr (ustr ''s'')) (JStr (replicate 500 97))"
    by auto
  have short: "\<not> 120 < length (ustr ''s'')"
    by (simp add: ustr_def)
  show ?thesis
    using C7_truncation_is_display_only [OF h1 h2 h3 h4 h5 h6] h1 short by simp
qed

text \<open>
  C1. \<open>update_check\<close> with only a new name, confirmed, against a check that has a
  script, an activation flag and a frequency: the body written is the fetched check with
  the new name, but without \<open>script\<close>, \<open>activated\<close> and \<open>frequency\<close>. The handler
  passes them as \<open>undefined\<close> properties, the spread copies them over the fetched values,
  and \<open>JSON.stringify\<close> leaves them out.
\<close>

theorem C1_unrequested_fields_dropped:
  "map (\<lambda>(t, r). (req_method r, req_body r))
     (issued (snd (update_check demo_config
        (JObj [(ustr ''id'', JStr (ustr ''X'')), (ustr ''name'', JStr (ustr ''new'')),
               (ustr ''confirm'', JBool True)])
        (stub_world check_service 20)))) =
   [(GET, None),
    (PUT, Some (JObj [(ustr ''id'', JStr (ustr ''X'')),
                      (ustr ''name'', JStr (ustr ''new'')),
                      (ustr ''tags'', JArr [JStr (ustr ''prod'')])]))]"
  by (simp add: update_check_def updateCheck_def opt_get_def member_def check_eval spread_def ustr_def)

end
